theory Spec2Isabelle
  imports Main "HOL-Library.Word"
begin

section \<open>Addresses\<close>

text \<open>
  \<^verbatim>\<open>size_t\<close> is taken as a 64-bit unsigned integer: \<^verbatim>\<open>++\<close> and \<^verbatim>\<open>--\<close> wrap around.

  A payload address (\<^verbatim>\<open>T*\<close>, \<^verbatim>\<open>void*\<close>) is \<open>nullptr\<close>, the address \<open>Ext a\<close> of an
  object allocated by the caller, or the address \<open>Obj b\<close> of the storage \<^verbatim>\<open>obj_\<close>
  embedded in the control block \<open>b\<close>. A \<^verbatim>\<open>ControlBlock*\<close> is \<open>None\<close> (null) or
  \<open>Some b\<close>, the identity of a control block.
\<close>

type_synonym size_t = "64 word"

datatype pointer = nullptr | Ext nat | Obj nat

section \<open>The control blocks\<close>

text \<open>
  \<^verbatim>\<open>ControlBlockPointer<T>\<close> holds \<^verbatim>\<open>ptr_\<close>; \<^verbatim>\<open>ControlBlockObject<T>\<close> holds the
  payload in place. Both have the counters \<^verbatim>\<open>shared_cnt_\<close> and \<^verbatim>\<open>weak_cnt_\<close>, and the
  bodies of their four counter methods are the same text, apart from how the payload is
  released (\<^verbatim>\<open>delete ptr_\<close> against the in-place destructor call).
\<close>

datatype cb_class = ControlBlockPointer pointer | ControlBlockObject

record control_block =
  cls :: cb_class
  shared_cnt :: size_t
  weak_cnt :: size_t

text \<open>The constructors: \<^verbatim>\<open>shared_cnt_(1), weak_cnt_(0)\<close>.\<close>

definition new_ControlBlockPointer :: "pointer \<Rightarrow> control_block" where
  "new_ControlBlockPointer p = \<lparr>cls = ControlBlockPointer p, shared_cnt = 1, weak_cnt = 0\<rparr>"

definition new_ControlBlockObject :: control_block where
  "new_ControlBlockObject = \<lparr>cls = ControlBlockObject, shared_cnt = 1, weak_cnt = 0\<rparr>"

text \<open>\<^verbatim>\<open>GetPointer\<close>: \<^verbatim>\<open>ptr_\<close>, or \<^verbatim>\<open>&obj_\<close> of the block \<open>this\<close>.\<close>

definition GetPointer :: "nat \<Rightarrow> control_block \<Rightarrow> pointer" where
  "GetPointer this c = (case cls c of ControlBlockPointer p \<Rightarrow> p | ControlBlockObject \<Rightarrow> Obj this)"

definition GetSharedCounter :: "control_block \<Rightarrow> size_t" where
  "GetSharedCounter c = shared_cnt c"

definition IncreaseSharedCounter :: "control_block \<Rightarrow> control_block" where
  "IncreaseSharedCounter c = c\<lparr>shared_cnt := shared_cnt c + 1\<rparr>"

definition IncreaseWeakCounter :: "control_block \<Rightarrow> control_block" where
  "IncreaseWeakCounter c = c\<lparr>weak_cnt := weak_cnt c + 1\<rparr>"

text \<open>
  \<^verbatim>\<open>DecreaseSharedCounter\<close> is two statements:
  \<^verbatim>\<open>if (!--shared_cnt_) { delete ptr_; }\<close> (in \<^verbatim>\<open>ControlBlockObject\<close> the destructor
  call on \<^verbatim>\<open>obj_\<close>), then \<^verbatim>\<open>if (!weak_cnt_ && !shared_cnt_) { delete this; }\<close>.
  The destructor of the payload runs inside the first one.

  \<^verbatim>\<open>delete ptr_\<close> destroys nothing when \<^verbatim>\<open>ptr_\<close> is null; the destructor call on
  \<^verbatim>\<open>obj_\<close> always runs.
\<close>

definition has_payload :: "control_block \<Rightarrow> bool" where
  "has_payload c =
     (case cls c of ControlBlockPointer p \<Rightarrow> p \<noteq> nullptr | ControlBlockObject \<Rightarrow> True)"

text \<open>The first statement: whether a payload is destroyed, and the block after the decrement.\<close>

definition DecreaseSharedCounter_release :: "control_block \<Rightarrow> bool \<times> control_block" where
  "DecreaseSharedCounter_release c =
     (let c' = c\<lparr>shared_cnt := shared_cnt c - 1\<rparr>
      in (shared_cnt c' = 0 \<and> has_payload c', c'))"

text \<open>The second statement: the block afterwards, \<open>None\<close> when \<^verbatim>\<open>delete this\<close> ran.\<close>

definition DecreaseSharedCounter_delete :: "control_block \<Rightarrow> control_block option" where
  "DecreaseSharedCounter_delete c =
     (if weak_cnt c = 0 \<and> shared_cnt c = 0 then None else Some c)"

text \<open>
  The whole method, where the destructor of the payload makes no call on the block
  between the two statements.
\<close>

definition DecreaseSharedCounter :: "control_block \<Rightarrow> bool \<times> control_block option" where
  "DecreaseSharedCounter c =
     (case DecreaseSharedCounter_release c of
        (released, c') \<Rightarrow> (released, DecreaseSharedCounter_delete c'))"

text \<open>
  \<^verbatim>\<open>DecreaseWeakCounter\<close>: \<^verbatim>\<open>if (!--weak_cnt_ && !shared_cnt_) { delete this; }\<close>
\<close>

definition DecreaseWeakCounter :: "control_block \<Rightarrow> control_block option" where
  "DecreaseWeakCounter c =
     (let c' = c\<lparr>weak_cnt := weak_cnt c - 1\<rparr>
      in if weak_cnt c' = 0 \<and> shared_cnt c' = 0 then None else Some c')"

subsection \<open>The life of one control block\<close>

text \<open>
  A sequence of calls of the four counter methods on one block. The trace counts how
  often a payload was destroyed and how often the block was deleted. A call on a
  deleted block is undefined behaviour: the run has no result (\<open>None\<close>).

  The payload may hold \<^verbatim>\<open>WeakPtr\<close> members that observe the payload's own block; \<open>own\<close>
  is their number. The destructor of the payload destroys them, so it calls
  \<^verbatim>\<open>DecreaseWeakCounter\<close> on the block \<open>own\<close> times, between the two statements of
  \<^verbatim>\<open>DecreaseSharedCounter\<close>. When one of these calls deletes the block, the second
  statement reads the counters of a deleted block: undefined behaviour.
\<close>

datatype cb_op = IncShared | DecShared | IncWeak | DecWeak

record cb_trace =
  block :: "control_block option"
  payload_destructions :: nat
  block_deletions :: nat

definition cb_init :: "control_block \<Rightarrow> cb_trace" where
  "cb_init c = \<lparr>block = Some c, payload_destructions = 0, block_deletions = 0\<rparr>"

definition cb_IncreaseSharedCounter :: "cb_trace \<Rightarrow> cb_trace option" where
  "cb_IncreaseSharedCounter t =
     (case block t of
        None \<Rightarrow> None
      | Some c \<Rightarrow> Some (t\<lparr>block := Some (IncreaseSharedCounter c)\<rparr>))"

definition cb_IncreaseWeakCounter :: "cb_trace \<Rightarrow> cb_trace option" where
  "cb_IncreaseWeakCounter t =
     (case block t of
        None \<Rightarrow> None
      | Some c \<Rightarrow> Some (t\<lparr>block := Some (IncreaseWeakCounter c)\<rparr>))"

definition cb_DecreaseWeakCounter :: "cb_trace \<Rightarrow> cb_trace option" where
  "cb_DecreaseWeakCounter t =
     (case block t of
        None \<Rightarrow> None
      | Some c \<Rightarrow>
          Some (t\<lparr>block := DecreaseWeakCounter c,
                  block_deletions :=
                    block_deletions t + (if DecreaseWeakCounter c = None then 1 else 0)\<rparr>))"

fun destroy_payload :: "nat \<Rightarrow> cb_trace \<Rightarrow> cb_trace option" where
  "destroy_payload 0 t = Some t"
| "destroy_payload (Suc n) t =
     (case cb_DecreaseWeakCounter t of None \<Rightarrow> None | Some t' \<Rightarrow> destroy_payload n t')"

definition cb_DecreaseSharedCounter :: "nat \<Rightarrow> cb_trace \<Rightarrow> cb_trace option" where
  "cb_DecreaseSharedCounter own t =
     (case block t of
        None \<Rightarrow> None
      | Some c \<Rightarrow>
          (case DecreaseSharedCounter_release c of
             (released, c') \<Rightarrow>
               (case (if released
                      then destroy_payload own
                             (t\<lparr>block := Some c',
                                payload_destructions := payload_destructions t + 1\<rparr>)
                      else Some (t\<lparr>block := Some c'\<rparr>)) of
                  None \<Rightarrow> None
                | Some t' \<Rightarrow>
                    (case block t' of
                       None \<Rightarrow> None
                     | Some c'' \<Rightarrow>
                         Some (t'\<lparr>block := DecreaseSharedCounter_delete c'',
                                  block_deletions :=
                                    block_deletions t' +
                                    (if DecreaseSharedCounter_delete c'' = None then 1 else 0)\<rparr>)))))"

fun cb_step :: "nat \<Rightarrow> cb_op \<Rightarrow> cb_trace \<Rightarrow> cb_trace option" where
  "cb_step own IncShared t = cb_IncreaseSharedCounter t"
| "cb_step own DecShared t = cb_DecreaseSharedCounter own t"
| "cb_step own IncWeak t = cb_IncreaseWeakCounter t"
| "cb_step own DecWeak t = cb_DecreaseWeakCounter t"

fun cb_run :: "nat \<Rightarrow> cb_op list \<Rightarrow> cb_trace \<Rightarrow> cb_trace option" where
  "cb_run own [] t = Some t"
| "cb_run own (x # xs) t =
     (case cb_step own x t of None \<Rightarrow> None | Some t' \<Rightarrow> cb_run own xs t')"






definition fresh_block :: "control_block \<Rightarrow> bool" where
  "fresh_block c = (shared_cnt c = 1 \<and> weak_cnt c = 0)"

section \<open>The program state\<close>

text \<open>
  \<^verbatim>\<open>SharedPtr<T>\<close> and \<^verbatim>\<open>WeakPtr<T>\<close> have the same two fields, \<^verbatim>\<open>cb_\<close> and
  \<^verbatim>\<open>observed_\<close>, both null by default.
\<close>

record handle =
  cb :: "nat option"
  observed :: pointer

definition empty_handle :: handle where
  "empty_handle = \<lparr>cb = None, observed = nullptr\<rparr>"

text \<open>
  The state of a program: the control blocks that exist (\<open>heap\<close>), the identity the next
  \<^verbatim>\<open>new\<close> returns (identities are not reused), the payloads released and the blocks
  deleted so far (latest first), and the pointer objects. A pointer object is named by
  its position in \<open>sps\<close> (the \<^verbatim>\<open>SharedPtr\<close>s) or \<open>wps\<close> (the \<^verbatim>\<open>WeakPtr\<close>s): a
  constructor appends one, a destructor leaves \<open>None\<close> in its place.

  In these states payloads are opaque: the destructor of a payload runs no pointer
  operation (payloads that hold \<^verbatim>\<open>SharedPtr\<close> members have a section of their own),
  and \<^verbatim>\<open>new\<close> does not fail.
\<close>

record state =
  heap :: "nat \<Rightarrow> control_block option"
  next_cb :: nat
  released :: "pointer list"
  deleted :: "nat list"
  sps :: "handle option list"
  wps :: "handle option list"

definition init :: state where
  "init = \<lparr>heap = (\<lambda>b. None), next_cb = 0, released = [], deleted = [], sps = [], wps = []\<rparr>"

text \<open>
  What can go wrong: \<^verbatim>\<open>throw BadWeakPtr()\<close>, with the state the exception leaves
  behind; a virtual call through a \<^verbatim>\<open>cb_\<close> whose block was deleted (undefined
  behaviour); the use of a pointer object that was never constructed or is destroyed
  (not a program, or undefined behaviour). \<open>OutOfFuel\<close> is not an outcome of the
  program: it says that a run of nested destructors was cut off by the bound it was given.
\<close>

datatype error = BadWeakPtr state | DanglingControlBlock | NoSuchObject | OutOfFuel

definition and_then :: "error + 'a \<Rightarrow> ('a \<Rightarrow> error + 'b) \<Rightarrow> error + 'b" where
  "and_then m f = (case m of Inl e \<Rightarrow> Inl e | Inr x \<Rightarrow> f x)"

subsection \<open>Calls on a control block\<close>

definition allocate :: "control_block \<Rightarrow> state \<Rightarrow> nat \<times> state" where
  "allocate c s = (next_cb s, s\<lparr>heap := (heap s)(next_cb s \<mapsto> c), next_cb := Suc (next_cb s)\<rparr>)"

definition call_IncreaseSharedCounter :: "nat \<Rightarrow> state \<Rightarrow> error + state" where
  "call_IncreaseSharedCounter b s =
     (case heap s b of
        None \<Rightarrow> Inl DanglingControlBlock
      | Some c \<Rightarrow> Inr (s\<lparr>heap := (heap s)(b \<mapsto> IncreaseSharedCounter c)\<rparr>))"

definition call_DecreaseSharedCounter :: "nat \<Rightarrow> state \<Rightarrow> error + state" where
  "call_DecreaseSharedCounter b s =
     (case heap s b of
        None \<Rightarrow> Inl DanglingControlBlock
      | Some c \<Rightarrow>
          (case DecreaseSharedCounter c of
             (rel, c') \<Rightarrow>
               Inr (s\<lparr>heap := (heap s)(b := c'),
                      released := (if rel then [GetPointer b c] else []) @ released s,
                      deleted := (if c' = None then [b] else []) @ deleted s\<rparr>)))"

definition call_IncreaseWeakCounter :: "nat \<Rightarrow> state \<Rightarrow> error + state" where
  "call_IncreaseWeakCounter b s =
     (case heap s b of
        None \<Rightarrow> Inl DanglingControlBlock
      | Some c \<Rightarrow> Inr (s\<lparr>heap := (heap s)(b \<mapsto> IncreaseWeakCounter c)\<rparr>))"

definition call_DecreaseWeakCounter :: "nat \<Rightarrow> state \<Rightarrow> error + state" where
  "call_DecreaseWeakCounter b s =
     (case heap s b of
        None \<Rightarrow> Inl DanglingControlBlock
      | Some c \<Rightarrow>
          (case DecreaseWeakCounter c of
             c' \<Rightarrow>
               Inr (s\<lparr>heap := (heap s)(b := c'),
                      deleted := (if c' = None then [b] else []) @ deleted s\<rparr>)))"

definition call_GetSharedCounter :: "nat \<Rightarrow> state \<Rightarrow> error + size_t" where
  "call_GetSharedCounter b s =
     (case heap s b of
        None \<Rightarrow> Inl DanglingControlBlock
      | Some c \<Rightarrow> Inr (GetSharedCounter c))"

subsection \<open>The private helpers of the pointer classes\<close>

text \<open>Each tests \<^verbatim>\<open>if (cb_)\<close> first.\<close>

definition SharedPtr_IncreaseCBCounter :: "handle \<Rightarrow> state \<Rightarrow> error + state" where
  "SharedPtr_IncreaseCBCounter h s =
     (case cb h of None \<Rightarrow> Inr s | Some b \<Rightarrow> call_IncreaseSharedCounter b s)"

definition SharedPtr_DecreaseCBCounter :: "handle \<Rightarrow> state \<Rightarrow> error + state" where
  "SharedPtr_DecreaseCBCounter h s =
     (case cb h of None \<Rightarrow> Inr s | Some b \<Rightarrow> call_DecreaseSharedCounter b s)"

definition SharedPtr_GetCBCounter :: "handle \<Rightarrow> state \<Rightarrow> error + size_t" where
  "SharedPtr_GetCBCounter h s =
     (case cb h of None \<Rightarrow> Inr 0 | Some b \<Rightarrow> call_GetSharedCounter b s)"

definition WeakPtr_IncreaseCBCounter :: "handle \<Rightarrow> state \<Rightarrow> error + state" where
  "WeakPtr_IncreaseCBCounter h s =
     (case cb h of None \<Rightarrow> Inr s | Some b \<Rightarrow> call_IncreaseWeakCounter b s)"

definition WeakPtr_DecreaseCBCounter :: "handle \<Rightarrow> state \<Rightarrow> error + state" where
  "WeakPtr_DecreaseCBCounter h s =
     (case cb h of None \<Rightarrow> Inr s | Some b \<Rightarrow> call_DecreaseWeakCounter b s)"

definition WeakPtr_GetCBCounter :: "handle \<Rightarrow> state \<Rightarrow> error + size_t" where
  "WeakPtr_GetCBCounter h s =
     (case cb h of None \<Rightarrow> Inr 0 | Some b \<Rightarrow> call_GetSharedCounter b s)"

subsection \<open>Pointer objects\<close>

definition the_sp :: "nat \<Rightarrow> state \<Rightarrow> error + handle" where
  "the_sp i s =
     (if i < length (sps s)
      then (case sps s ! i of None \<Rightarrow> Inl NoSuchObject | Some h \<Rightarrow> Inr h)
      else Inl NoSuchObject)"

definition the_wp :: "nat \<Rightarrow> state \<Rightarrow> error + handle" where
  "the_wp i s =
     (if i < length (wps s)
      then (case wps s ! i of None \<Rightarrow> Inl NoSuchObject | Some h \<Rightarrow> Inr h)
      else Inl NoSuchObject)"

definition new_sp :: "handle \<Rightarrow> state \<Rightarrow> state" where
  "new_sp h s = s\<lparr>sps := sps s @ [Some h]\<rparr>"

definition set_sp :: "nat \<Rightarrow> handle \<Rightarrow> state \<Rightarrow> state" where
  "set_sp i h s = s\<lparr>sps := (sps s)[i := Some h]\<rparr>"

definition end_sp :: "nat \<Rightarrow> state \<Rightarrow> state" where
  "end_sp i s = s\<lparr>sps := (sps s)[i := None]\<rparr>"

definition new_wp :: "handle \<Rightarrow> state \<Rightarrow> state" where
  "new_wp h s = s\<lparr>wps := wps s @ [Some h]\<rparr>"

definition set_wp :: "nat \<Rightarrow> handle \<Rightarrow> state \<Rightarrow> state" where
  "set_wp i h s = s\<lparr>wps := (wps s)[i := Some h]\<rparr>"

definition end_wp :: "nat \<Rightarrow> state \<Rightarrow> state" where
  "end_wp i s = s\<lparr>wps := (wps s)[i := None]\<rparr>"

section \<open>WeakPtr: the observers\<close>

definition WeakPtr_UseCount :: "nat \<Rightarrow> state \<Rightarrow> error + size_t" where
  "WeakPtr_UseCount this s = and_then (the_wp this s) (\<lambda>w. WeakPtr_GetCBCounter w s)"

text \<open>\<^verbatim>\<open>Expired\<close>: \<^verbatim>\<open>return !GetCBCounter();\<close>\<close>

definition Expired :: "handle \<Rightarrow> state \<Rightarrow> error + bool" where
  "Expired w s = and_then (WeakPtr_GetCBCounter w s) (\<lambda>n. Inr (n = 0))"

definition WeakPtr_Expired :: "nat \<Rightarrow> state \<Rightarrow> error + bool" where
  "WeakPtr_Expired this s = and_then (the_wp this s) (\<lambda>w. Expired w s)"

section \<open>SharedPtr\<close>

text \<open>\<^verbatim>\<open>SharedPtr()\<close> and \<^verbatim>\<open>SharedPtr(std::nullptr_t)\<close>.\<close>

definition SharedPtr_default :: "state \<Rightarrow> error + state" where
  "SharedPtr_default s = Inr (new_sp empty_handle s)"

text \<open>\<^verbatim>\<open>explicit SharedPtr(T* ptr) : cb_(new ControlBlockPointer(ptr)), observed_(ptr)\<close>\<close>

definition SharedPtr_ptr :: "pointer \<Rightarrow> state \<Rightarrow> error + state" where
  "SharedPtr_ptr p s =
     (case allocate (new_ControlBlockPointer p) s of
        (b, s') \<Rightarrow> Inr (new_sp \<lparr>cb = Some b, observed = p\<rparr> s'))"

text \<open>\<^verbatim>\<open>MakeShared\<close>: one \<^verbatim>\<open>new ControlBlockObject<W>\<close>, observed is its \<^verbatim>\<open>GetPointer()\<close>.\<close>

definition MakeShared :: "state \<Rightarrow> error + state" where
  "MakeShared s =
     (case allocate new_ControlBlockObject s of
        (b, s') \<Rightarrow> Inr (new_sp \<lparr>cb = Some b, observed = GetPointer b new_ControlBlockObject\<rparr> s'))"

definition SharedPtr_copy :: "nat \<Rightarrow> state \<Rightarrow> error + state" where
  "SharedPtr_copy other s =
     and_then (the_sp other s) (\<lambda>h.
     and_then (SharedPtr_IncreaseCBCounter h s) (\<lambda>s'.
     Inr (new_sp h s')))"

definition SharedPtr_move :: "nat \<Rightarrow> state \<Rightarrow> error + state" where
  "SharedPtr_move other s =
     and_then (the_sp other s) (\<lambda>h.
     Inr (new_sp h (set_sp other empty_handle s)))"

text \<open>The aliasing constructor: \<^verbatim>\<open>cb_(other.cb_), observed_(ptr)\<close>, then the increment.\<close>

definition SharedPtr_alias :: "nat \<Rightarrow> pointer \<Rightarrow> state \<Rightarrow> error + state" where
  "SharedPtr_alias other p s =
     and_then (the_sp other s) (\<lambda>h.
     and_then (SharedPtr_IncreaseCBCounter \<lparr>cb = cb h, observed = p\<rparr> s) (\<lambda>s'.
     Inr (new_sp \<lparr>cb = cb h, observed = p\<rparr> s')))"

text \<open>
  The promoting constructor \<^verbatim>\<open>explicit SharedPtr(const WeakPtr<T>& other)\<close>: the throw
  comes before any assignment.
\<close>

definition SharedPtr_from_weak :: "nat \<Rightarrow> state \<Rightarrow> error + state" where
  "SharedPtr_from_weak other s =
     and_then (the_wp other s) (\<lambda>w.
     and_then (Expired w s) (\<lambda>e.
     if e then Inl (BadWeakPtr s)
     else and_then (SharedPtr_IncreaseCBCounter \<lparr>cb = cb w, observed = observed w\<rparr> s) (\<lambda>s'.
          Inr (new_sp \<lparr>cb = cb w, observed = observed w\<rparr> s'))))"

text \<open>
  Copy assignment, in the order of the source: nothing when \<^verbatim>\<open>this == &other\<close>; else
  the decrement, then \<^verbatim>\<open>other\<close> is read for the two assignments, then the increment.
  (In these states every pointer object stands on its own, so the decrement cannot
  destroy \<^verbatim>\<open>other\<close>; pointer objects held by a payload come further down.)
\<close>

definition SharedPtr_assign :: "nat \<Rightarrow> nat \<Rightarrow> state \<Rightarrow> error + state" where
  "SharedPtr_assign this other s =
     (if this = other then and_then (the_sp this s) (\<lambda>h. Inr s)
      else and_then (the_sp this s) (\<lambda>h.
           and_then (SharedPtr_DecreaseCBCounter h s) (\<lambda>s'.
           and_then (the_sp other s') (\<lambda>h'.
           SharedPtr_IncreaseCBCounter h' (set_sp this h' s')))))"

text \<open>
  Move assignment, in the order of the source: the decrement, then \<^verbatim>\<open>other\<close> is read
  and emptied.
\<close>

definition SharedPtr_move_assign :: "nat \<Rightarrow> nat \<Rightarrow> state \<Rightarrow> error + state" where
  "SharedPtr_move_assign this other s =
     (if this = other then and_then (the_sp this s) (\<lambda>h. Inr s)
      else and_then (the_sp this s) (\<lambda>h.
           and_then (SharedPtr_DecreaseCBCounter h s) (\<lambda>s'.
           and_then (the_sp other s') (\<lambda>h'.
           Inr (set_sp other empty_handle (set_sp this h' s'))))))"

definition SharedPtr_destroy :: "nat \<Rightarrow> state \<Rightarrow> error + state" where
  "SharedPtr_destroy this s =
     and_then (the_sp this s) (\<lambda>h.
     and_then (SharedPtr_DecreaseCBCounter h s) (\<lambda>s'.
     Inr (end_sp this s')))"

definition SharedPtr_Reset :: "nat \<Rightarrow> state \<Rightarrow> error + state" where
  "SharedPtr_Reset this s =
     and_then (the_sp this s) (\<lambda>h.
     and_then (SharedPtr_DecreaseCBCounter h s) (\<lambda>s'.
     Inr (set_sp this empty_handle s')))"

definition SharedPtr_Reset_ptr :: "nat \<Rightarrow> pointer \<Rightarrow> state \<Rightarrow> error + state" where
  "SharedPtr_Reset_ptr this p s =
     and_then (the_sp this s) (\<lambda>h.
     and_then (SharedPtr_DecreaseCBCounter h s) (\<lambda>s'.
     (case allocate (new_ControlBlockPointer p) s' of
        (b, s'') \<Rightarrow> Inr (set_sp this \<lparr>cb = Some b, observed = p\<rparr> s''))))"

definition SharedPtr_Swap :: "nat \<Rightarrow> nat \<Rightarrow> state \<Rightarrow> error + state" where
  "SharedPtr_Swap this other s =
     and_then (the_sp this s) (\<lambda>h.
     and_then (the_sp other s) (\<lambda>h'.
     Inr (set_sp other h (set_sp this h' s))))"

definition SharedPtr_Get :: "nat \<Rightarrow> state \<Rightarrow> error + pointer" where
  "SharedPtr_Get this s = and_then (the_sp this s) (\<lambda>h. Inr (observed h))"

definition SharedPtr_UseCount :: "nat \<Rightarrow> state \<Rightarrow> error + size_t" where
  "SharedPtr_UseCount this s = and_then (the_sp this s) (\<lambda>h. SharedPtr_GetCBCounter h s)"

text \<open>\<^verbatim>\<open>operator bool\<close> converts \<^verbatim>\<open>observed_\<close>, not \<^verbatim>\<open>cb_\<close>.\<close>

definition SharedPtr_bool :: "nat \<Rightarrow> state \<Rightarrow> error + bool" where
  "SharedPtr_bool this s = and_then (the_sp this s) (\<lambda>h. Inr (observed h \<noteq> nullptr))"

section \<open>WeakPtr\<close>

definition WeakPtr_default :: "state \<Rightarrow> error + state" where
  "WeakPtr_default s = Inr (new_wp empty_handle s)"

definition WeakPtr_copy :: "nat \<Rightarrow> state \<Rightarrow> error + state" where
  "WeakPtr_copy other s =
     and_then (the_wp other s) (\<lambda>w.
     and_then (WeakPtr_IncreaseCBCounter w s) (\<lambda>s'.
     Inr (new_wp w s')))"

definition WeakPtr_move :: "nat \<Rightarrow> state \<Rightarrow> error + state" where
  "WeakPtr_move other s =
     and_then (the_wp other s) (\<lambda>w.
     Inr (new_wp w (set_wp other empty_handle s)))"

text \<open>
  \<^verbatim>\<open>WeakPtr(const SharedPtr<T>& other)\<close>: both fields are copied; the increment is under
  \<^verbatim>\<open>if (other.operator bool())\<close>, the test of \<^verbatim>\<open>other.observed_\<close>.
\<close>

definition WeakPtr_from_shared :: "nat \<Rightarrow> state \<Rightarrow> error + state" where
  "WeakPtr_from_shared other s =
     and_then (the_sp other s) (\<lambda>h.
     if observed h \<noteq> nullptr
     then and_then (WeakPtr_IncreaseCBCounter \<lparr>cb = cb h, observed = observed h\<rparr> s) (\<lambda>s'.
          Inr (new_wp \<lparr>cb = cb h, observed = observed h\<rparr> s'))
     else Inr (new_wp \<lparr>cb = cb h, observed = observed h\<rparr> s))"

definition WeakPtr_assign :: "nat \<Rightarrow> nat \<Rightarrow> state \<Rightarrow> error + state" where
  "WeakPtr_assign this other s =
     (if this = other then and_then (the_wp this s) (\<lambda>w. Inr s)
      else and_then (the_wp this s) (\<lambda>w.
           and_then (the_wp other s) (\<lambda>w'.
           and_then (WeakPtr_DecreaseCBCounter w s) (\<lambda>s'.
           WeakPtr_IncreaseCBCounter w' (set_wp this w' s')))))"

definition WeakPtr_move_assign :: "nat \<Rightarrow> nat \<Rightarrow> state \<Rightarrow> error + state" where
  "WeakPtr_move_assign this other s =
     (if this = other then and_then (the_wp this s) (\<lambda>w. Inr s)
      else and_then (the_wp this s) (\<lambda>w.
           and_then (the_wp other s) (\<lambda>w'.
           and_then (WeakPtr_DecreaseCBCounter w s) (\<lambda>s'.
           Inr (set_wp other empty_handle (set_wp this w' s'))))))"

text \<open>
  \<^verbatim>\<open>WeakPtr& operator=(const SharedPtr<T>& other)\<close>: nothing when
  \<^verbatim>\<open>cb_ == other.cb_\<close>; else the decrement, the two assignments, the increment.
\<close>

definition WeakPtr_assign_shared :: "nat \<Rightarrow> nat \<Rightarrow> state \<Rightarrow> error + state" where
  "WeakPtr_assign_shared this other s =
     and_then (the_wp this s) (\<lambda>w.
     and_then (the_sp other s) (\<lambda>h.
     if cb w = cb h then Inr s
     else and_then (WeakPtr_DecreaseCBCounter w s) (\<lambda>s'.
          WeakPtr_IncreaseCBCounter \<lparr>cb = cb h, observed = observed h\<rparr>
            (set_wp this \<lparr>cb = cb h, observed = observed h\<rparr> s'))))"

definition WeakPtr_destroy :: "nat \<Rightarrow> state \<Rightarrow> error + state" where
  "WeakPtr_destroy this s =
     and_then (the_wp this s) (\<lambda>w.
     and_then (WeakPtr_DecreaseCBCounter w s) (\<lambda>s'.
     Inr (end_wp this s')))"

definition WeakPtr_Reset :: "nat \<Rightarrow> state \<Rightarrow> error + state" where
  "WeakPtr_Reset this s =
     and_then (the_wp this s) (\<lambda>w.
     and_then (WeakPtr_DecreaseCBCounter w s) (\<lambda>s'.
     Inr (set_wp this empty_handle s')))"

definition WeakPtr_Swap :: "nat \<Rightarrow> nat \<Rightarrow> state \<Rightarrow> error + state" where
  "WeakPtr_Swap this other s =
     and_then (the_wp this s) (\<lambda>w.
     and_then (the_wp other s) (\<lambda>w'.
     Inr (set_wp other w (set_wp this w' s))))"

text \<open>
  \<^verbatim>\<open>Lock\<close>: the result starts empty and is returned so when \<^verbatim>\<open>Expired()\<close>;
  else it takes both fields and increments the strong count.
\<close>

definition WeakPtr_Lock :: "nat \<Rightarrow> state \<Rightarrow> error + state" where
  "WeakPtr_Lock this s =
     and_then (the_wp this s) (\<lambda>w.
     and_then (Expired w s) (\<lambda>e.
     if e then Inr (new_sp empty_handle s)
     else and_then (SharedPtr_IncreaseCBCounter \<lparr>cb = cb w, observed = observed w\<rparr> s) (\<lambda>s'.
          Inr (new_sp \<lparr>cb = cb w, observed = observed w\<rparr> s'))))"

section \<open>Programs\<close>

text \<open>A program is a sequence of operations on pointer objects; it stops at the first error.\<close>

datatype op =
    SP_default | SP_ptr pointer | SP_MakeShared | SP_copy nat | SP_move nat
  | SP_alias nat pointer | SP_from_weak nat | SP_assign nat nat | SP_move_assign nat nat
  | SP_Reset nat | SP_Reset_ptr nat pointer | SP_Swap nat nat | SP_destroy nat
  | WP_default | WP_copy nat | WP_move nat | WP_from_shared nat | WP_assign nat nat
  | WP_move_assign nat nat | WP_assign_shared nat nat | WP_Reset nat | WP_Swap nat nat
  | WP_destroy nat | WP_Lock nat

fun exec :: "op \<Rightarrow> state \<Rightarrow> error + state" where
  "exec SP_default s = SharedPtr_default s"
| "exec (SP_ptr p) s = SharedPtr_ptr p s"
| "exec SP_MakeShared s = MakeShared s"
| "exec (SP_copy j) s = SharedPtr_copy j s"
| "exec (SP_move j) s = SharedPtr_move j s"
| "exec (SP_alias j p) s = SharedPtr_alias j p s"
| "exec (SP_from_weak j) s = SharedPtr_from_weak j s"
| "exec (SP_assign i j) s = SharedPtr_assign i j s"
| "exec (SP_move_assign i j) s = SharedPtr_move_assign i j s"
| "exec (SP_Reset i) s = SharedPtr_Reset i s"
| "exec (SP_Reset_ptr i p) s = SharedPtr_Reset_ptr i p s"
| "exec (SP_Swap i j) s = SharedPtr_Swap i j s"
| "exec (SP_destroy i) s = SharedPtr_destroy i s"
| "exec WP_default s = WeakPtr_default s"
| "exec (WP_copy j) s = WeakPtr_copy j s"
| "exec (WP_move j) s = WeakPtr_move j s"
| "exec (WP_from_shared j) s = WeakPtr_from_shared j s"
| "exec (WP_assign i j) s = WeakPtr_assign i j s"
| "exec (WP_move_assign i j) s = WeakPtr_move_assign i j s"
| "exec (WP_assign_shared i j) s = WeakPtr_assign_shared i j s"
| "exec (WP_Reset i) s = WeakPtr_Reset i s"
| "exec (WP_Swap i j) s = WeakPtr_Swap i j s"
| "exec (WP_destroy i) s = WeakPtr_destroy i s"
| "exec (WP_Lock i) s = WeakPtr_Lock i s"

fun run :: "op list \<Rightarrow> state \<Rightarrow> error + state" where
  "run [] s = Inr s"
| "run (x # xs) s = and_then (exec x s) (run xs)"


section \<open>Payloads that hold pointers\<close>

text \<open>
  In the states above every pointer object stands on its own. A payload can hold
  \<^verbatim>\<open>SharedPtr\<close> objects as members, as the node of a list holds the pointer to the next
  node. \<open>members w p\<close> are the \<^verbatim>\<open>SharedPtr\<close> objects that are members of the payload
  at the address \<open>p\<close>, in the order in which its destructor destroys them.

  The destructor of a payload runs inside the first statement of
  \<^verbatim>\<open>DecreaseSharedCounter\<close> and destroys the members; the destructor of a member
  calls \<^verbatim>\<open>DecreaseSharedCounter\<close> on the block of that member, which may destroy
  another payload, and so on. The first argument bounds the depth of this nesting; the
  outcome is \<open>OutOfFuel\<close> when the bound is reached.
\<close>

record world =
  st :: state
  members :: "pointer \<Rightarrow> nat list"

definition world_init :: world where
  "world_init = \<lparr>st = init, members = (\<lambda>p. [])\<rparr>"

text \<open>An operation that destroys no payload acts on the state alone.\<close>

definition in_world :: "(state \<Rightarrow> error + state) \<Rightarrow> world \<Rightarrow> error + world" where
  "in_world f w = and_then (f (st w)) (\<lambda>s. Inr (w\<lparr>st := s\<rparr>))"

text \<open>
  \<^verbatim>\<open>DecreaseSharedCounter\<close> on the block \<open>b\<close>, statement by statement: the decrement
  and, at zero, the destructor of the payload with the destructors of its members; then
  the test of both counters, which reads the block again.
\<close>

fun deep_DecreaseSharedCounter :: "nat \<Rightarrow> nat \<Rightarrow> world \<Rightarrow> error + world"
  and destroy_members :: "nat \<Rightarrow> nat list \<Rightarrow> world \<Rightarrow> error + world" where
  "deep_DecreaseSharedCounter 0 b w = Inl OutOfFuel"
| "deep_DecreaseSharedCounter (Suc n) b w =
     (case heap (st w) b of
        None \<Rightarrow> Inl DanglingControlBlock
      | Some c \<Rightarrow>
          (case DecreaseSharedCounter_release c of
             (rel, c') \<Rightarrow>
               and_then
                 (if rel
                  then destroy_members n (members w (GetPointer b c))
                         (w\<lparr>st := (st w)\<lparr>heap := (heap (st w))(b \<mapsto> c'),
                                          released := GetPointer b c # released (st w)\<rparr>\<rparr>)
                  else Inr (w\<lparr>st := (st w)\<lparr>heap := (heap (st w))(b \<mapsto> c')\<rparr>\<rparr>))
                 (\<lambda>w'. case heap (st w') b of
                          None \<Rightarrow> Inl DanglingControlBlock
                        | Some c'' \<Rightarrow>
                            Inr (w'\<lparr>st := (st w')
                                   \<lparr>heap := (heap (st w'))(b := DecreaseSharedCounter_delete c''),
                                    deleted :=
                                      (if DecreaseSharedCounter_delete c'' = None then [b] else [])
                                      @ deleted (st w')\<rparr>\<rparr>))))"
| "destroy_members n [] w = Inr w"
| "destroy_members n (m # ms) w =
     and_then (the_sp m (st w)) (\<lambda>h.
     and_then (case cb h of None \<Rightarrow> Inr w | Some b \<Rightarrow> deep_DecreaseSharedCounter n b w) (\<lambda>w'.
     destroy_members n ms (w'\<lparr>st := end_sp m (st w')\<rparr>)))"

text \<open>\<^verbatim>\<open>SharedPtr::DecreaseCBCounter\<close>: \<^verbatim>\<open>if (cb_) { cb_->DecreaseSharedCounter(); }\<close>\<close>

definition deep_DecreaseCBCounter :: "nat \<Rightarrow> handle \<Rightarrow> world \<Rightarrow> error + world" where
  "deep_DecreaseCBCounter n h w =
     (case cb h of None \<Rightarrow> Inr w | Some b \<Rightarrow> deep_DecreaseSharedCounter n b w)"

text \<open>
  The operations of \<^verbatim>\<open>SharedPtr\<close> that decrement, in the order of the source. Copy
  assignment: \<^verbatim>\<open>DecreaseCBCounter(); cb_ = other.cb_; observed_ = other.observed_;
  IncreaseCBCounter();\<close>. After the decrement the source reads \<^verbatim>\<open>other\<close> and writes
  \<^verbatim>\<open>this\<close>: either may have been destroyed by then.
\<close>

definition deep_SharedPtr_assign :: "nat \<Rightarrow> nat \<Rightarrow> nat \<Rightarrow> world \<Rightarrow> error + world" where
  "deep_SharedPtr_assign n this other w =
     (if this = other then and_then (the_sp this (st w)) (\<lambda>h. Inr w)
      else and_then (the_sp this (st w)) (\<lambda>h.
           and_then (deep_DecreaseCBCounter n h w) (\<lambda>w'.
           and_then (the_sp other (st w')) (\<lambda>h'.
           and_then (the_sp this (st w')) (\<lambda>h''.
           in_world (SharedPtr_IncreaseCBCounter h') (w'\<lparr>st := set_sp this h' (st w')\<rparr>))))))"

definition deep_SharedPtr_move_assign :: "nat \<Rightarrow> nat \<Rightarrow> nat \<Rightarrow> world \<Rightarrow> error + world" where
  "deep_SharedPtr_move_assign n this other w =
     (if this = other then and_then (the_sp this (st w)) (\<lambda>h. Inr w)
      else and_then (the_sp this (st w)) (\<lambda>h.
           and_then (deep_DecreaseCBCounter n h w) (\<lambda>w'.
           and_then (the_sp other (st w')) (\<lambda>h'.
           and_then (the_sp this (st w')) (\<lambda>h''.
           Inr (w'\<lparr>st := set_sp other empty_handle (set_sp this h' (st w'))\<rparr>))))))"

definition deep_SharedPtr_destroy :: "nat \<Rightarrow> nat \<Rightarrow> world \<Rightarrow> error + world" where
  "deep_SharedPtr_destroy n this w =
     and_then (the_sp this (st w)) (\<lambda>h.
     and_then (deep_DecreaseCBCounter n h w) (\<lambda>w'.
     Inr (w'\<lparr>st := end_sp this (st w')\<rparr>)))"

definition deep_SharedPtr_Reset :: "nat \<Rightarrow> nat \<Rightarrow> world \<Rightarrow> error + world" where
  "deep_SharedPtr_Reset n this w =
     and_then (the_sp this (st w)) (\<lambda>h.
     and_then (deep_DecreaseCBCounter n h w) (\<lambda>w'.
     and_then (the_sp this (st w')) (\<lambda>h''.
     Inr (w'\<lparr>st := set_sp this empty_handle (st w')\<rparr>))))"

definition deep_SharedPtr_Reset_ptr :: "nat \<Rightarrow> nat \<Rightarrow> pointer \<Rightarrow> world \<Rightarrow> error + world" where
  "deep_SharedPtr_Reset_ptr n this p w =
     and_then (the_sp this (st w)) (\<lambda>h.
     and_then (deep_DecreaseCBCounter n h w) (\<lambda>w'.
     and_then (the_sp this (st w')) (\<lambda>h''.
     (case allocate (new_ControlBlockPointer p) (st w') of
        (b, s'') \<Rightarrow> Inr (w'\<lparr>st := set_sp this \<lparr>cb = Some b, observed = p\<rparr> s''\<rparr>)))))"

text \<open>
  A program over payloads with members: the operations of both classes, and \<open>Member m p\<close>,
  which says that the \<^verbatim>\<open>SharedPtr\<close> object \<open>m\<close> was constructed as a member of the
  payload at \<open>p\<close> (members are destroyed in the reverse order of their construction).
\<close>

datatype world_op = Op op | Member nat pointer

fun world_exec :: "nat \<Rightarrow> world_op \<Rightarrow> world \<Rightarrow> error + world" where
  "world_exec n (Member m p) w =
     and_then (the_sp m (st w)) (\<lambda>h. Inr (w\<lparr>members := (members w)(p := m # members w p)\<rparr>))"
| "world_exec n (Op (SP_assign i j)) w = deep_SharedPtr_assign n i j w"
| "world_exec n (Op (SP_move_assign i j)) w = deep_SharedPtr_move_assign n i j w"
| "world_exec n (Op (SP_Reset i)) w = deep_SharedPtr_Reset n i w"
| "world_exec n (Op (SP_Reset_ptr i p)) w = deep_SharedPtr_Reset_ptr n i p w"
| "world_exec n (Op (SP_destroy i)) w = deep_SharedPtr_destroy n i w"
| "world_exec n (Op x) w = in_world (exec x) w"

fun world_run :: "nat \<Rightarrow> world_op list \<Rightarrow> world \<Rightarrow> error + world" where
  "world_run n [] w = Inr w"
| "world_run n (x # xs) w = and_then (world_exec n x w) (world_run n xs)"

text \<open>Reading a world.\<close>

definition world_sp :: "nat \<Rightarrow> world \<Rightarrow> error + handle" where
  "world_sp i w = the_sp i (st w)"

definition world_UseCount :: "nat \<Rightarrow> world \<Rightarrow> error + size_t" where
  "world_UseCount i w = SharedPtr_UseCount i (st w)"

definition world_released :: "world \<Rightarrow> error + pointer list" where
  "world_released w = Inr (released (st w))"

definition world_deleted :: "world \<Rightarrow> error + nat list" where
  "world_deleted w = Inr (deleted (st w))"

text \<open>
  The list of two nodes:
  \<^verbatim>\<open>struct Node { SharedPtr<Node> next; };\<close>
  \<^verbatim>\<open>SharedPtr<Node> a(new Node); a->next = SharedPtr<Node>(new Node);\<close>
  Object 0 is the member \<^verbatim>\<open>next\<close> of the first node (address 1), object 1 is \<^verbatim>\<open>a\<close>,
  object 2 is the member \<^verbatim>\<open>next\<close> of the second node (address 2), object 3 is the
  temporary.
\<close>

definition two_nodes :: "world_op list" where
  "two_nodes =
     [Op SP_default, Member 0 (Ext 1), Op (SP_ptr (Ext 1)),
      Op SP_default, Member 2 (Ext 2), Op (SP_ptr (Ext 2)),
      Op (SP_move_assign 0 3), Op (SP_destroy 3)]"

section \<open>Example states\<close>

text \<open>
  \<open>observed_state\<close>: after \<^verbatim>\<open>auto a = MakeShared<T>(); WeakPtr<T> w(a);\<close>.
  \<open>expired_state\<close>: after \<^verbatim>\<open>a.Reset();\<close> on top of that: the payload is gone, the
  block remains for \<^verbatim>\<open>w\<close>.
  \<open>aliased_state\<close>: after \<^verbatim>\<open>SharedPtr<T> a(p); SharedPtr<U> c(a, q); WeakPtr<T> w(a);\<close>
  with two different addresses \<^verbatim>\<open>p\<close> and \<^verbatim>\<open>q\<close>.
  \<open>empty_state\<close>: after \<^verbatim>\<open>SharedPtr<T> a; WeakPtr<T> w;\<close>.
\<close>

definition observed_state :: state where
  "observed_state =
     \<lparr>heap = (\<lambda>b. None)(0 \<mapsto> \<lparr>cls = ControlBlockObject, shared_cnt = 1, weak_cnt = 1\<rparr>),
      next_cb = 1, released = [], deleted = [],
      sps = [Some \<lparr>cb = Some 0, observed = Obj 0\<rparr>],
      wps = [Some \<lparr>cb = Some 0, observed = Obj 0\<rparr>]\<rparr>"

definition expired_state :: state where
  "expired_state =
     \<lparr>heap = (\<lambda>b. None)(0 \<mapsto> \<lparr>cls = ControlBlockObject, shared_cnt = 0, weak_cnt = 1\<rparr>),
      next_cb = 1, released = [Obj 0], deleted = [],
      sps = [Some \<lparr>cb = None, observed = nullptr\<rparr>],
      wps = [Some \<lparr>cb = Some 0, observed = Obj 0\<rparr>]\<rparr>"

definition aliased_state :: state where
  "aliased_state =
     \<lparr>heap = (\<lambda>b. None)(0 \<mapsto> \<lparr>cls = ControlBlockPointer (Ext 1), shared_cnt = 2, weak_cnt = 1\<rparr>),
      next_cb = 1, released = [], deleted = [],
      sps = [Some \<lparr>cb = Some 0, observed = Ext 1\<rparr>, Some \<lparr>cb = Some 0, observed = Ext 2\<rparr>],
      wps = [Some \<lparr>cb = Some 0, observed = Ext 1\<rparr>]\<rparr>"

definition empty_state :: state where
  "empty_state =
     \<lparr>heap = (\<lambda>b. None), next_cb = 0, released = [], deleted = [],
      sps = [Some \<lparr>cb = None, observed = nullptr\<rparr>],
      wps = [Some \<lparr>cb = None, observed = nullptr\<rparr>]\<rparr>"


section \<open>Counting owners\<close>

text \<open>
  \<open>owners b hs\<close>: how many of the live \<^verbatim>\<open>SharedPtr\<close> objects \<open>hs\<close> have the control
  block \<open>b\<close>. A state is \<open>counted\<close> when the strong count of every block is the number
  of its owners, a block that is gone has no owner, and no block has an identity that
  \<^verbatim>\<open>new\<close> has yet to hand out.
\<close>

definition owns :: "nat \<Rightarrow> handle option \<Rightarrow> bool" where
  "owns b ho = (case ho of None \<Rightarrow> False | Some h \<Rightarrow> cb h = Some b)"

definition owners :: "nat \<Rightarrow> handle option list \<Rightarrow> nat" where
  "owners b hs = length (filter (owns b) hs)"

definition tallied :: "(nat \<Rightarrow> nat) \<Rightarrow> state \<Rightarrow> bool" where
  "tallied k s =
     ((\<forall>b. heap s b = None \<longrightarrow> k b = 0) \<and>
      (\<forall>b c. heap s b = Some c \<longrightarrow> unat (shared_cnt c) = k b) \<and>
      (\<forall>b. next_cb s \<le> b \<longrightarrow> heap s b = None))"

definition accounted :: "handle option list \<Rightarrow> state \<Rightarrow> bool" where
  "accounted hs s = tallied (\<lambda>b. owners b hs) s"

definition counted :: "state \<Rightarrow> bool" where
  "counted s = accounted (sps s) s"

text \<open>
  The outcome of an operation started in \<open>s\<close> is in order: a counted state with at most
  one pointer object more, or the refusal of an object that does not exist.
\<close>

definition proceeds :: "state \<Rightarrow> error + state \<Rightarrow> bool" where
  "proceeds s r =
     (case r of
        Inl e \<Rightarrow> e = NoSuchObject
      | Inr s' \<Rightarrow> counted s' \<and> length (sps s') \<le> Suc (length (sps s)))"

text \<open>The operations of \<^verbatim>\<open>SharedPtr\<close> that involve no \<^verbatim>\<open>WeakPtr\<close>.\<close>

fun shared_only :: "op \<Rightarrow> bool" where
  "shared_only SP_default = True"
| "shared_only (SP_ptr p) = True"
| "shared_only SP_MakeShared = True"
| "shared_only (SP_copy j) = True"
| "shared_only (SP_move j) = True"
| "shared_only (SP_alias j p) = True"
| "shared_only (SP_assign i j) = True"
| "shared_only (SP_move_assign i j) = True"
| "shared_only (SP_Reset i) = True"
| "shared_only (SP_Reset_ptr i p) = True"
| "shared_only (SP_Swap i j) = True"
| "shared_only (SP_destroy i) = True"
| "shared_only x = False"


section \<open>Empty pointers\<close>

text \<open>
  A pointer object is \<open>coherent\<close> when its observed address is null exactly when it has
  no control block. \<open>keeps_coherent\<close> leaves out the three calls that build an incoherent
  \<^verbatim>\<open>SharedPtr\<close>: the adoption of a null address by the constructor or by \<^verbatim>\<open>Reset\<close>,
  and an aliasing construction whose address is null when the source has a block, or not
  null when it has none.
\<close>

definition coherent :: "handle \<Rightarrow> bool" where
  "coherent h = ((observed h = nullptr) = (cb h = None))"

definition coherent_obj :: "handle option \<Rightarrow> bool" where
  "coherent_obj ho = (case ho of None \<Rightarrow> True | Some h \<Rightarrow> coherent h)"

definition all_coherent :: "state \<Rightarrow> bool" where
  "all_coherent s = (list_all coherent_obj (sps s) \<and> list_all coherent_obj (wps s))"

fun keeps_coherent :: "op \<Rightarrow> state \<Rightarrow> bool" where
  "keeps_coherent (SP_ptr p) s = (p \<noteq> nullptr)"
| "keeps_coherent (SP_Reset_ptr i p) s = (p \<noteq> nullptr)"
| "keeps_coherent (SP_alias j p) s =
     (case the_sp j s of Inl e \<Rightarrow> True | Inr h \<Rightarrow> (p = nullptr) = (cb h = None))"
| "keeps_coherent x s = True"

fun coherent_program :: "op list \<Rightarrow> state \<Rightarrow> bool" where
  "coherent_program [] s = True"
| "coherent_program (x # xs) s =
     (keeps_coherent x s \<and>
      (case exec x s of Inl e \<Rightarrow> True | Inr s' \<Rightarrow> coherent_program xs s'))"

text \<open>Two states with the same control blocks, counters, releases and deletions.\<close>

definition same_blocks :: "state \<Rightarrow> state \<Rightarrow> bool" where
  "same_blocks s s' =
     (heap s' = heap s \<and> next_cb s' = next_cb s \<and> released s' = released s \<and>
      deleted s' = deleted s)"

text \<open>Reading the weak count of a block (the classes have no method for it).\<close>

definition read_weak_cnt :: "nat \<Rightarrow> state \<Rightarrow> error + size_t" where
  "read_weak_cnt b s =
     (case heap s b of None \<Rightarrow> Inl DanglingControlBlock | Some c \<Rightarrow> Inr (weak_cnt c))"


section \<open>Basic facts\<close>

lemma DecreaseSharedCounter_unfold:
  "DecreaseSharedCounter c =
     (let c' = c\<lparr>shared_cnt := shared_cnt c - 1\<rparr>
      in (shared_cnt c' = 0 \<and> has_payload c,
          if weak_cnt c' = 0 \<and> shared_cnt c' = 0 then None else Some c'))"
  by (simp add: DecreaseSharedCounter_def DecreaseSharedCounter_release_def
      DecreaseSharedCounter_delete_def Let_def has_payload_def)

lemma and_then_simps [simp]:
  "and_then (Inl e) f = Inl e" "and_then (Inr x) f = f x"
  by (simp_all add: and_then_def)

lemma and_then_eq_Inr:
  "(and_then m f = Inr y) = (\<exists>x. m = Inr x \<and> f x = Inr y)"
  by (cases m) simp_all

lemma unat_succ: "(x :: size_t) \<noteq> - 1 \<Longrightarrow> unat (x + 1) = Suc (unat x)"
  by (simp add: add.commute add_eq_0_iff unatSuc)

lemma unat_pred: "(x :: size_t) \<noteq> 0 \<Longrightarrow> unat (x - 1) = unat x - 1"
  by (metis unat_minus_one)

lemma the_sp_cong: "sps s' = sps s \<Longrightarrow> the_sp i s' = the_sp i s"
  by (simp add: the_sp_def)

lemma the_wp_cong: "wps s' = wps s \<Longrightarrow> the_wp i s' = the_wp i s"
  by (simp add: the_wp_def)

lemma the_wp_unchanged [simp]:
  "the_wp i (new_sp h s) = the_wp i s"
  "the_wp i (set_sp j h s) = the_wp i s"
  "the_wp i (end_sp j s) = the_wp i s"
  "the_wp i (s\<lparr>heap := hp\<rparr>) = the_wp i s"
  by (simp_all add: the_wp_def new_sp_def set_sp_def end_sp_def)

lemma the_sp_unchanged [simp]:
  "the_sp i (new_wp h s) = the_sp i s"
  "the_sp i (set_wp j h s) = the_sp i s"
  "the_sp i (end_wp j s) = the_sp i s"
  "the_sp i (s\<lparr>heap := hp\<rparr>) = the_sp i s"
  by (simp_all add: the_sp_def new_wp_def set_wp_def end_wp_def)

text \<open>The example states are what the programs in their descriptions leave behind.\<close>

lemma observed_state_reached:
  "run [SP_MakeShared, WP_from_shared 0] init = Inr observed_state"
  by (simp add: init_def observed_state_def MakeShared_def allocate_def new_sp_def new_wp_def
      new_ControlBlockObject_def GetPointer_def WeakPtr_from_shared_def the_sp_def
      WeakPtr_IncreaseCBCounter_def call_IncreaseWeakCounter_def IncreaseWeakCounter_def)

lemma expired_state_reached:
  "run [SP_MakeShared, WP_from_shared 0, SP_Reset 0] init = Inr expired_state"
  by (simp add: init_def expired_state_def MakeShared_def allocate_def new_sp_def new_wp_def
      new_ControlBlockObject_def GetPointer_def WeakPtr_from_shared_def the_sp_def
      WeakPtr_IncreaseCBCounter_def call_IncreaseWeakCounter_def IncreaseWeakCounter_def
      SharedPtr_Reset_def SharedPtr_DecreaseCBCounter_def call_DecreaseSharedCounter_def
      DecreaseSharedCounter_unfold has_payload_def Let_def set_sp_def empty_handle_def)

lemma aliased_state_reached:
  "run [SP_ptr (Ext 1), SP_alias 0 (Ext 2), WP_from_shared 0] init = Inr aliased_state"
  by (simp add: init_def aliased_state_def SharedPtr_ptr_def allocate_def new_sp_def new_wp_def
      new_ControlBlockPointer_def SharedPtr_alias_def WeakPtr_from_shared_def the_sp_def
      SharedPtr_IncreaseCBCounter_def call_IncreaseSharedCounter_def IncreaseSharedCounter_def
      WeakPtr_IncreaseCBCounter_def call_IncreaseWeakCounter_def IncreaseWeakCounter_def)

lemma empty_state_reached: "run [SP_default, WP_default] init = Inr empty_state"
  by (simp add: init_def empty_state_def SharedPtr_default_def WeakPtr_default_def new_sp_def
      new_wp_def empty_handle_def)


section \<open>Properties of one control block\<close>

lemma fresh_block_new:
  "fresh_block (new_ControlBlockPointer p)" "fresh_block new_ControlBlockObject"
  by (simp_all add: fresh_block_def new_ControlBlockPointer_def new_ControlBlockObject_def)










lemmas cb_defs =
  cb_init_def cb_IncreaseSharedCounter_def cb_IncreaseWeakCounter_def cb_DecreaseWeakCounter_def
  cb_DecreaseSharedCounter_def DecreaseSharedCounter_release_def DecreaseSharedCounter_delete_def
  DecreaseWeakCounter_def IncreaseSharedCounter_def IncreaseWeakCounter_def has_payload_def
  new_ControlBlockPointer_def new_ControlBlockObject_def fresh_block_def Let_def




text \<open>
  Two more runs. A separate block over a null address: the last owner deletes the block
  and no payload is destroyed. And, outside the discipline, a payload whose only observer
  is its own member: its destructor deletes the block inside
  \<^verbatim>\<open>DecreaseSharedCounter\<close>, whose second statement then reads the deleted block.
\<close>

lemma null_payload_not_destroyed:
  "cb_run 0 [DecShared] (cb_init (new_ControlBlockPointer nullptr)) =
     Some \<lparr>block = None, payload_destructions = 0, block_deletions = 1\<rparr>"
  by (simp add: cb_defs)

lemma payload_deletes_its_block:
  "cb_run 1 [IncWeak, DecShared] (cb_init new_ControlBlockObject) = None"
  by (simp add: cb_defs)

section \<open>Counting owners: the invariant\<close>

lemma filter_update_count:
  "i < length xs \<Longrightarrow>
   length (filter P (xs[i := y])) + (if P (xs ! i) then 1 else 0) =
   length (filter P xs) + (if P y then 1 else 0)"
proof (induction xs arbitrary: i)
  case Nil
  then show ?case by simp
next
  case (Cons x xs)
  then show ?case by (cases i) auto
qed

lemma owners_append [simp]:
  "owners b (hs @ [Some h]) = owners b hs + (if cb h = Some b then 1 else 0)"
  by (simp add: owners_def owns_def)

lemma owners_update:
  assumes "i < length hs" "hs ! i = Some h0"
  shows "owners b (hs[i := Some h]) + (if cb h0 = Some b then 1 else 0) =
         owners b hs + (if cb h = Some b then 1 else 0)"
  using filter_update_count [OF assms(1), of "owns b" "Some h"] assms(2)
  by (simp add: owners_def owns_def)

lemma owners_end:
  assumes "i < length hs" "hs ! i = Some h0"
  shows "owners b (hs[i := None]) + (if cb h0 = Some b then 1 else 0) = owners b hs"
  using filter_update_count [OF assms(1), of "owns b" None] assms(2)
  by (simp add: owners_def owns_def)

lemma owners_pos:
  assumes "i < length hs" "hs ! i = Some h" "cb h = Some b"
  shows "0 < owners b hs"
proof -
  have "Some h \<in> set hs" using assms(1,2) by (metis nth_mem)
  then have "Some h \<in> set (filter (owns b) hs)"
    using assms(3) by (simp add: owns_def)
  then show ?thesis
    unfolding owners_def by (metis length_pos_if_in_set)
qed

lemma owners_le: "owners b hs \<le> length hs"
  by (simp add: owners_def)

lemma the_sp_cases:
  "the_sp i s = Inl NoSuchObject \<or>
   (\<exists>h. the_sp i s = Inr h \<and> i < length (sps s) \<and> sps s ! i = Some h)"
  by (auto simp: the_sp_def split: option.splits)

lemma tallied_sps [simp]:
  "tallied k (new_sp h s) = tallied k s"
  "tallied k (set_sp i h s) = tallied k s"
  "tallied k (end_sp i s) = tallied k s"
  by (simp_all add: tallied_def new_sp_def set_sp_def end_sp_def)

lemma sps_simps [simp]:
  "sps (new_sp h s) = sps s @ [Some h]"
  "sps (set_sp i h s) = (sps s)[i := Some h]"
  "sps (end_sp i s) = (sps s)[i := None]"
  by (simp_all add: new_sp_def set_sp_def end_sp_def)

lemma unat_succ_bounded: "unat (x :: size_t) < 2 ^ 64 - 1 \<Longrightarrow> unat (x + 1) = Suc (unat x)"
  using unat_add_lem [of x 1] by simp

lemma tallied_alive:
  assumes "tallied k s" "0 < k b"
  shows "\<exists>c. heap s b = Some c \<and> unat (shared_cnt c) = k b \<and> b < next_cb s"
proof -
  from assms obtain c where c: "heap s b = Some c"
    by (cases "heap s b") (auto simp: tallied_def)
  with assms(1) have "unat (shared_cnt c) = k b" by (simp add: tallied_def)
  moreover from assms(1) c have "b < next_cb s"
    by (metis not_le_imp_less option.distinct(1) tallied_def)
  ultimately show ?thesis using c by simp
qed

lemma tallied_decrease:
  assumes "tallied k s" "cb h = Some b" "0 < k b"
  shows "\<exists>s'. SharedPtr_DecreaseCBCounter h s = Inr s' \<and> tallied (k(b := k b - 1)) s' \<and>
              sps s' = sps s"
proof -
  from tallied_alive [OF assms(1,3)] obtain c
    where c: "heap s b = Some c" "unat (shared_cnt c) = k b" "b < next_cb s" by blast
  with assms(3) have nz: "shared_cnt c \<noteq> 0" by (auto simp: unat_eq_0)
  have u: "unat (shared_cnt c - 1) = k b - 1" using unat_pred [OF nz] c by simp
  define s' where "s' = s\<lparr>heap := (heap s)(b := snd (DecreaseSharedCounter c)),
      released := (if fst (DecreaseSharedCounter c) then [GetPointer b c] else []) @ released s,
      deleted := (if snd (DecreaseSharedCounter c) = None then [b] else []) @ deleted s\<rparr>"
  have r: "SharedPtr_DecreaseCBCounter h s = Inr s'"
    using assms(2) c
    by (simp add: SharedPtr_DecreaseCBCounter_def call_DecreaseSharedCounter_def s'_def
        split: prod.splits)
  have "k b - 1 = 0" if "snd (DecreaseSharedCounter c) = None"
    using that u by (auto simp: DecreaseSharedCounter_unfold has_payload_def Let_def split: if_splits)
  moreover have "unat (shared_cnt c') = k b - 1" if "snd (DecreaseSharedCounter c) = Some c'" for c'
    using that u by (auto simp: DecreaseSharedCounter_unfold has_payload_def Let_def split: if_splits)
  ultimately have "tallied (k(b := k b - 1)) s'"
    using assms(1) c(3) unfolding tallied_def s'_def by auto
  with r show ?thesis by (auto simp: s'_def)
qed

lemma tallied_increase:
  assumes "tallied k s" "cb h = Some b" "0 < k b" "k b < 2 ^ 64 - 1"
  shows "\<exists>s'. SharedPtr_IncreaseCBCounter h s = Inr s' \<and> tallied (k(b := Suc (k b))) s' \<and>
              sps s' = sps s"
proof -
  from tallied_alive [OF assms(1,3)] obtain c
    where c: "heap s b = Some c" "unat (shared_cnt c) = k b" "b < next_cb s" by blast
  with assms(4) have u: "unat (shared_cnt c + 1) = Suc (k b)"
    using unat_succ_bounded [of "shared_cnt c"] by simp
  define s' where "s' = s\<lparr>heap := (heap s)(b \<mapsto> IncreaseSharedCounter c)\<rparr>"
  have r: "SharedPtr_IncreaseCBCounter h s = Inr s'"
    using assms(2) c
    by (simp add: SharedPtr_IncreaseCBCounter_def call_IncreaseSharedCounter_def s'_def)
  have "tallied (k(b := Suc (k b))) s'"
    using assms(1) c(3) u unfolding tallied_def s'_def by (auto simp: IncreaseSharedCounter_def)
  with r show ?thesis by (auto simp: s'_def)
qed

lemma tallied_allocate:
  assumes "tallied k s" "shared_cnt c = 1"
  shows "\<exists>s'. allocate c s = (next_cb s, s') \<and> tallied (k(next_cb s := 1)) s' \<and>
              sps s' = sps s \<and> k (next_cb s) = 0"
proof -
  have f: "heap s (next_cb s) = None" using assms(1) by (simp add: tallied_def)
  then have z: "k (next_cb s) = 0" using assms(1) by (simp add: tallied_def)
  define s' where "s' = s\<lparr>heap := (heap s)(next_cb s \<mapsto> c), next_cb := Suc (next_cb s)\<rparr>"
  have "tallied (k(next_cb s := 1)) s'"
    using assms unfolding tallied_def s'_def by auto
  then show ?thesis using z by (auto simp: allocate_def s'_def)
qed


subsection \<open>The helpers keep the count\<close>

text \<open>
  Between the steps of one operation the pointer objects and the counters disagree for a
  moment, so the invariant is stated for any list \<open>hs\<close> of pointer objects: a decrement
  accounts for one object less, an increment and an allocation for one more.
\<close>

lemma owns_simps [simp]:
  "owns b None = False" "owns b (Some h) = (cb h = Some b)"
  by (simp_all add: owns_def)

lemma owners_list_update:
  "i < length hs \<Longrightarrow>
   owners b (hs[i := y]) + (if owns b (hs ! i) then 1 else 0) =
   owners b hs + (if owns b y then 1 else 0)"
  unfolding owners_def by (rule filter_update_count)

lemma accounted_cong:
  "(\<And>b. owners b hs = owners b hs') \<Longrightarrow> accounted hs s = accounted hs' s"
  by (simp add: accounted_def)

lemma accounted_sps [simp]:
  "accounted hs (new_sp h s) = accounted hs s"
  "accounted hs (set_sp i h s) = accounted hs s"
  "accounted hs (end_sp i s) = accounted hs s"
  by (simp_all add: accounted_def)

lemma accounted_decrease:
  assumes "accounted hs s" "i < length hs" "hs ! i = Some h"
  shows "\<exists>s'. SharedPtr_DecreaseCBCounter h s = Inr s' \<and> accounted (hs[i := None]) s' \<and>
              sps s' = sps s"
proof (cases "cb h")
  case None
  have "owners b (hs[i := None]) = owners b hs" for b
    using owners_list_update [OF assms(2), of b None] assms(3) None by simp
  then have "accounted (hs[i := None]) s" using assms(1) accounted_cong by blast
  then show ?thesis using None by (simp add: SharedPtr_DecreaseCBCounter_def)
next
  case (Some b)
  have pos: "0 < owners b hs" using owners_pos [OF assms(2,3) Some] .
  from tallied_decrease [OF assms(1) [unfolded accounted_def] Some pos] obtain s'
    where s': "SharedPtr_DecreaseCBCounter h s = Inr s'"
      "tallied ((\<lambda>b. owners b hs)(b := owners b hs - 1)) s'" "sps s' = sps s" by blast
  have "(\<lambda>b. owners b hs)(b := owners b hs - 1) = (\<lambda>x. owners x (hs[i := None]))"
  proof
    fix x
    show "((\<lambda>b. owners b hs)(b := owners b hs - 1)) x = owners x (hs[i := None])"
      using owners_list_update [OF assms(2), of x None] assms(3) Some by (auto split: if_splits)
  qed
  with s' show ?thesis by (simp add: accounted_def)
qed

lemma accounted_increase:
  assumes "accounted hs s" "\<forall>b. cb h = Some b \<longrightarrow> 0 < owners b hs" "length hs < 2 ^ 64 - 1"
  shows "\<exists>s'. SharedPtr_IncreaseCBCounter h s = Inr s' \<and> accounted (hs @ [Some h]) s' \<and>
              sps s' = sps s"
proof (cases "cb h")
  case None
  then have "owners b (hs @ [Some h]) = owners b hs" for b by simp
  then have "accounted (hs @ [Some h]) s" using assms(1) accounted_cong by blast
  then show ?thesis using None by (simp add: SharedPtr_IncreaseCBCounter_def)
next
  case (Some b)
  have pos: "0 < owners b hs" using assms(2) Some by simp
  have bd: "owners b hs < 2 ^ 64 - 1" using owners_le [of b hs] assms(3) by linarith
  from tallied_increase [OF assms(1) [unfolded accounted_def] Some pos bd] obtain s'
    where s': "SharedPtr_IncreaseCBCounter h s = Inr s'"
      "tallied ((\<lambda>b. owners b hs)(b := Suc (owners b hs))) s'" "sps s' = sps s" by blast
  have "(\<lambda>b. owners b hs)(b := Suc (owners b hs)) = (\<lambda>x. owners x (hs @ [Some h]))"
    using Some by (auto simp: fun_eq_iff)
  with s' show ?thesis by (simp add: accounted_def)
qed

lemma accounted_allocate:
  assumes "accounted hs s" "shared_cnt c = 1"
  shows "\<exists>s'. allocate c s = (next_cb s, s') \<and>
              accounted (hs @ [Some \<lparr>cb = Some (next_cb s), observed = p\<rparr>]) s' \<and>
              sps s' = sps s"
proof -
  from tallied_allocate [OF assms(1) [unfolded accounted_def] assms(2)] obtain s'
    where s': "allocate c s = (next_cb s, s')"
      "tallied ((\<lambda>b. owners b hs)(next_cb s := 1)) s'" "sps s' = sps s"
      "owners (next_cb s) hs = 0"
    by blast
  have "(\<lambda>b. owners b hs)(next_cb s := 1) =
        (\<lambda>x. owners x (hs @ [Some \<lparr>cb = Some (next_cb s), observed = p\<rparr>]))"
    using s'(4) by (auto simp: fun_eq_iff)
  with s' show ?thesis by (simp add: accounted_def)
qed

lemma proceeds_NoSuchObject [simp]: "proceeds s (Inl NoSuchObject)"
  by (simp add: proceeds_def)

lemma proceeds_I:
  assumes "accounted hs s'" "\<And>b. owners b hs = owners b (sps s')"
    "length (sps s') \<le> Suc (length (sps s))"
  shows "proceeds s (Inr s')"
  using assms accounted_cong [of hs "sps s'" s'] by (simp add: proceeds_def counted_def)


subsection \<open>Every operation keeps the count\<close>

lemma owners_overwrite:
  assumes "i < length hs"
  shows "owners b (hs[i := Some h]) = owners b (hs[i := None]) + (if cb h = Some b then 1 else 0)"
  using owners_list_update [of i "hs[i := None]" b "Some h"] assms by simp

lemma the_sp_obtain:
  obtains (missing) "the_sp i s = Inl NoSuchObject"
  | (live) h where "the_sp i s = Inr h" "i < length (sps s)" "sps s ! i = Some h"
  using the_sp_cases [of i s] by blast

lemma proceeds_default:
  assumes "counted s"
  shows "proceeds s (SharedPtr_default s)"
  unfolding SharedPtr_default_def
proof (rule proceeds_I [where hs = "sps s"])
  show "accounted (sps s) (new_sp empty_handle s)" using assms by (simp add: counted_def)
qed (simp_all add: empty_handle_def)

lemma proceeds_ptr:
  assumes "counted s"
  shows "proceeds s (SharedPtr_ptr p s)"
proof -
  from accounted_allocate [OF assms [unfolded counted_def], of "new_ControlBlockPointer p" p]
  obtain s1 where s1: "allocate (new_ControlBlockPointer p) s = (next_cb s, s1)"
    "accounted (sps s @ [Some \<lparr>cb = Some (next_cb s), observed = p\<rparr>]) s1" "sps s1 = sps s"
    by (auto simp: new_ControlBlockPointer_def)
  have "proceeds s (Inr (new_sp \<lparr>cb = Some (next_cb s), observed = p\<rparr> s1))"
    by (rule proceeds_I [where hs = "sps s @ [Some \<lparr>cb = Some (next_cb s), observed = p\<rparr>]"])
       (use s1 in simp_all)
  then show ?thesis using s1(1) by (simp add: SharedPtr_ptr_def)
qed

lemma proceeds_MakeShared:
  assumes "counted s"
  shows "proceeds s (MakeShared s)"
proof -
  define p where "p = GetPointer (next_cb s) new_ControlBlockObject"
  from accounted_allocate [OF assms [unfolded counted_def], of new_ControlBlockObject p]
  obtain s1 where s1: "allocate new_ControlBlockObject s = (next_cb s, s1)"
    "accounted (sps s @ [Some \<lparr>cb = Some (next_cb s), observed = p\<rparr>]) s1" "sps s1 = sps s"
    by (auto simp: new_ControlBlockObject_def)
  have "proceeds s (Inr (new_sp \<lparr>cb = Some (next_cb s), observed = p\<rparr> s1))"
    by (rule proceeds_I [where hs = "sps s @ [Some \<lparr>cb = Some (next_cb s), observed = p\<rparr>]"])
       (use s1 in simp_all)
  then show ?thesis using s1(1) by (simp add: MakeShared_def p_def)
qed

lemma proceeds_alias:
  assumes "counted s" "length (sps s) < 2 ^ 64 - 1"
  shows "proceeds s (SharedPtr_alias j p s)"
proof (cases j s rule: the_sp_obtain)
  case missing
  then show ?thesis by (simp add: SharedPtr_alias_def)
next
  case (live h)
  define h' where "h' = \<lparr>cb = cb h, observed = p\<rparr>"
  have "\<forall>b. cb h' = Some b \<longrightarrow> 0 < owners b (sps s)"
    using owners_pos [OF live(2,3)] by (simp add: h'_def)
  from accounted_increase [OF assms(1) [unfolded counted_def] this assms(2)]
  obtain s1 where s1: "SharedPtr_IncreaseCBCounter h' s = Inr s1"
    "accounted (sps s @ [Some h']) s1" "sps s1 = sps s" by blast
  have "proceeds s (Inr (new_sp h' s1))"
    by (rule proceeds_I [where hs = "sps s @ [Some h']"]) (use s1 in simp_all)
  then show ?thesis using live(1) s1(1) by (simp add: SharedPtr_alias_def h'_def)
qed

lemma proceeds_copy:
  assumes "counted s" "length (sps s) < 2 ^ 64 - 1"
  shows "proceeds s (SharedPtr_copy j s)"
proof (cases j s rule: the_sp_obtain)
  case missing
  then show ?thesis by (simp add: SharedPtr_copy_def)
next
  case (live h)
  have "\<forall>b. cb h = Some b \<longrightarrow> 0 < owners b (sps s)"
    using owners_pos [OF live(2,3)] by simp
  from accounted_increase [OF assms(1) [unfolded counted_def] this assms(2)]
  obtain s1 where s1: "SharedPtr_IncreaseCBCounter h s = Inr s1"
    "accounted (sps s @ [Some h]) s1" "sps s1 = sps s" by blast
  have "proceeds s (Inr (new_sp h s1))"
    by (rule proceeds_I [where hs = "sps s @ [Some h]"]) (use s1 in simp_all)
  then show ?thesis using live(1) s1(1) by (simp add: SharedPtr_copy_def)
qed

lemma proceeds_move:
  assumes "counted s"
  shows "proceeds s (SharedPtr_move j s)"
proof (cases j s rule: the_sp_obtain)
  case missing
  then show ?thesis by (simp add: SharedPtr_move_def)
next
  case (live h)
  have "proceeds s (Inr (new_sp h (set_sp j empty_handle s)))"
  proof (rule proceeds_I [where hs = "sps s"])
    show "accounted (sps s) (new_sp h (set_sp j empty_handle s))"
      using assms by (simp add: counted_def)
    show "owners b (sps s) = owners b (sps (new_sp h (set_sp j empty_handle s)))" for b
      using owners_list_update [OF live(2), of b "Some empty_handle"] live(3)
      by (simp add: empty_handle_def)
  qed simp
  then show ?thesis using live(1) by (simp add: SharedPtr_move_def)
qed

lemma proceeds_destroy:
  assumes "counted s"
  shows "proceeds s (SharedPtr_destroy i s)"
proof (cases i s rule: the_sp_obtain)
  case missing
  then show ?thesis by (simp add: SharedPtr_destroy_def)
next
  case (live h)
  from accounted_decrease [OF assms [unfolded counted_def] live(2,3)]
  obtain s1 where s1: "SharedPtr_DecreaseCBCounter h s = Inr s1"
    "accounted ((sps s)[i := None]) s1" "sps s1 = sps s" by blast
  have "proceeds s (Inr (end_sp i s1))"
    by (rule proceeds_I [where hs = "(sps s)[i := None]"]) (use s1 in simp_all)
  then show ?thesis using live(1) s1(1) by (simp add: SharedPtr_destroy_def)
qed

lemma proceeds_Reset:
  assumes "counted s"
  shows "proceeds s (SharedPtr_Reset i s)"
proof (cases i s rule: the_sp_obtain)
  case missing
  then show ?thesis by (simp add: SharedPtr_Reset_def)
next
  case (live h)
  from accounted_decrease [OF assms [unfolded counted_def] live(2,3)]
  obtain s1 where s1: "SharedPtr_DecreaseCBCounter h s = Inr s1"
    "accounted ((sps s)[i := None]) s1" "sps s1 = sps s" by blast
  have "proceeds s (Inr (set_sp i empty_handle s1))"
    by (rule proceeds_I [where hs = "(sps s)[i := None]"])
       (use s1 live(2) in \<open>simp_all add: owners_overwrite empty_handle_def\<close>)
  then show ?thesis using live(1) s1(1) by (simp add: SharedPtr_Reset_def)
qed

lemma proceeds_Reset_ptr:
  assumes "counted s"
  shows "proceeds s (SharedPtr_Reset_ptr i p s)"
proof (cases i s rule: the_sp_obtain)
  case missing
  then show ?thesis by (simp add: SharedPtr_Reset_ptr_def)
next
  case (live h)
  from accounted_decrease [OF assms [unfolded counted_def] live(2,3)]
  obtain s1 where s1: "SharedPtr_DecreaseCBCounter h s = Inr s1"
    "accounted ((sps s)[i := None]) s1" "sps s1 = sps s" by blast
  define h' where "h' = \<lparr>cb = Some (next_cb s1), observed = p\<rparr>"
  from accounted_allocate [OF s1(2), of "new_ControlBlockPointer p" p]
  obtain s2 where s2: "allocate (new_ControlBlockPointer p) s1 = (next_cb s1, s2)"
    "accounted ((sps s)[i := None] @ [Some h']) s2" "sps s2 = sps s1"
    by (auto simp: new_ControlBlockPointer_def h'_def)
  have "proceeds s (Inr (set_sp i h' s2))"
    by (rule proceeds_I [where hs = "(sps s)[i := None] @ [Some h']"])
       (use s1 s2 live(2) in \<open>simp_all add: owners_overwrite\<close>)
  then show ?thesis using live(1) s1(1) s2(1) by (simp add: SharedPtr_Reset_ptr_def h'_def)
qed


subsection \<open>Programs keep the count\<close>

lemma proceeds_same: "counted s \<Longrightarrow> proceeds s (Inr s)"
  by (simp add: proceeds_def)

lemma proceeds_assign:
  assumes "counted s" "length (sps s) < 2 ^ 64 - 1"
  shows "proceeds s (SharedPtr_assign i j s)"
proof (cases i s rule: the_sp_obtain)
  case missing
  then show ?thesis by (auto simp: SharedPtr_assign_def)
next
  case (live h)
  show ?thesis
  proof (cases "i = j")
    case True
    then show ?thesis using live(1) assms(1) by (simp add: SharedPtr_assign_def proceeds_same)
  next
    case False
    from accounted_decrease [OF assms(1) [unfolded counted_def] live(2,3)]
    obtain s1 where s1: "SharedPtr_DecreaseCBCounter h s = Inr s1"
      "accounted ((sps s)[i := None]) s1" "sps s1 = sps s" by blast
    have after: "the_sp j s1 = the_sp j s" using s1(3) by (rule the_sp_cong)
    show ?thesis
    proof (cases j s rule: the_sp_obtain)
      case missing
      then show ?thesis using live(1) False s1(1) after by (simp add: SharedPtr_assign_def)
    next
      case other: (live h')
      have j: "j < length ((sps s)[i := None])" "(sps s)[i := None] ! j = Some h'"
        using other(2,3) False by simp_all
      have pos: "\<forall>b. cb h' = Some b \<longrightarrow> 0 < owners b ((sps s)[i := None])"
        using owners_pos [OF j] by simp
      have "accounted ((sps s)[i := None]) (set_sp i h' s1)" using s1(2) by simp
      from accounted_increase [OF this pos] assms(2)
      obtain s2 where s2: "SharedPtr_IncreaseCBCounter h' (set_sp i h' s1) = Inr s2"
        "accounted ((sps s)[i := None] @ [Some h']) s2" "sps s2 = sps (set_sp i h' s1)"
        by auto
      have "proceeds s (Inr s2)"
        by (rule proceeds_I [where hs = "(sps s)[i := None] @ [Some h']"])
           (use s1 s2 live(2) in \<open>simp_all add: owners_overwrite\<close>)
      then show ?thesis
        using live(1) other(1) False s1(1) s2(1) after by (simp add: SharedPtr_assign_def)
    qed
  qed
qed

lemma proceeds_move_assign:
  assumes "counted s"
  shows "proceeds s (SharedPtr_move_assign i j s)"
proof (cases i s rule: the_sp_obtain)
  case missing
  then show ?thesis by (auto simp: SharedPtr_move_assign_def)
next
  case (live h)
  show ?thesis
  proof (cases "i = j")
    case True
    then show ?thesis using live(1) assms(1) by (simp add: SharedPtr_move_assign_def proceeds_same)
  next
    case False
    from accounted_decrease [OF assms(1) [unfolded counted_def] live(2,3)]
    obtain s1 where s1: "SharedPtr_DecreaseCBCounter h s = Inr s1"
      "accounted ((sps s)[i := None]) s1" "sps s1 = sps s" by blast
    have after: "the_sp j s1 = the_sp j s" using s1(3) by (rule the_sp_cong)
    show ?thesis
    proof (cases j s rule: the_sp_obtain)
      case missing
      then show ?thesis using live(1) False s1(1) after by (simp add: SharedPtr_move_assign_def)
    next
      case other: (live h')
      have "proceeds s (Inr (set_sp j empty_handle (set_sp i h' s1)))"
      proof (rule proceeds_I [where hs = "(sps s)[i := None]"])
        show "accounted ((sps s)[i := None]) (set_sp j empty_handle (set_sp i h' s1))"
          using s1(2) by simp
        show "owners b ((sps s)[i := None]) =
              owners b (sps (set_sp j empty_handle (set_sp i h' s1)))" for b
          using owners_list_update [of j "(sps s)[i := Some h']" b "Some empty_handle"]
            other(2,3) False live(2) s1(3)
          by (simp add: owners_overwrite empty_handle_def)
        show "length (sps (set_sp j empty_handle (set_sp i h' s1))) \<le> Suc (length (sps s))"
          using s1(3) by simp
      qed
      then show ?thesis
        using live(1) other(1) False s1(1) after by (simp add: SharedPtr_move_assign_def)
    qed
  qed
qed

lemma proceeds_Swap:
  assumes "counted s"
  shows "proceeds s (SharedPtr_Swap i j s)"
proof (cases i s rule: the_sp_obtain)
  case missing
  then show ?thesis by (simp add: SharedPtr_Swap_def)
next
  case (live h)
  show ?thesis
  proof (cases j s rule: the_sp_obtain)
    case missing
    then show ?thesis using live(1) by (simp add: SharedPtr_Swap_def)
  next
    case other: (live h')
    have "proceeds s (Inr (set_sp j h (set_sp i h' s)))"
    proof (rule proceeds_I [where hs = "sps s"])
      show "accounted (sps s) (set_sp j h (set_sp i h' s))"
        using assms by (simp add: counted_def)
      show "owners b (sps s) = owners b (sps (set_sp j h (set_sp i h' s)))" for b
      proof (cases "i = j")
        case True
        then show ?thesis using live other by (simp add: list_update_same_conv [THEN iffD2])
      next
        case False
        then show ?thesis
          using owners_list_update [of j "(sps s)[i := Some h']" b "Some h"]
            owners_list_update [of i "sps s" b "Some h'"] other(2,3) live(2,3)
          by (simp split: if_splits)
      qed
    qed simp
    then show ?thesis using live(1) other(1) by (simp add: SharedPtr_Swap_def)
  qed
qed

lemma exec_proceeds:
  assumes "counted s" "length (sps s) < 2 ^ 64 - 1" "shared_only x"
  shows "proceeds s (exec x s)"
  using assms
  by (cases x)
     (simp_all add: proceeds_default proceeds_ptr proceeds_MakeShared proceeds_copy proceeds_move
        proceeds_alias proceeds_assign proceeds_move_assign proceeds_Reset proceeds_Reset_ptr
        proceeds_Swap proceeds_destroy)

lemma run_counted:
  assumes "counted s" "length (sps s) + length xs < 2 ^ 64" "list_all shared_only xs"
  shows "run xs s = Inl NoSuchObject \<or> (\<exists>s'. run xs s = Inr s' \<and> counted s')"
  using assms
proof (induction xs arbitrary: s)
  case Nil
  then show ?case by simp
next
  case (Cons x xs)
  from Cons.prems have "proceeds s (exec x s)"
    by (intro exec_proceeds) simp_all
  then consider "exec x s = Inl NoSuchObject"
    | s1 where "exec x s = Inr s1" "counted s1" "length (sps s1) \<le> Suc (length (sps s))"
    by (auto simp: proceeds_def split: sum.splits)
  then show ?case
  proof cases
    case 1
    then show ?thesis by simp
  next
    case 2
    have "length (sps s1) + length xs < 2 ^ 64" using 2(3) Cons.prems(2) by simp
    from Cons.IH [OF 2(2) this] Cons.prems(3) 2(1) show ?thesis by simp
  qed
qed

lemma counted_init: "counted init"
  by (simp add: counted_def accounted_def tallied_def init_def owners_def)

lemma counted_UseCount:
  assumes "counted s" "the_sp i s = Inr h" "cb h = Some b"
  shows "\<exists>n. SharedPtr_UseCount i s = Inr n \<and> unat n = owners b (sps s)"
proof -
  from assms(2) have i: "i < length (sps s)" "sps s ! i = Some h"
    by (auto simp: the_sp_def split: if_splits option.splits)
  from tallied_alive [OF assms(1) [unfolded counted_def accounted_def] owners_pos [OF i assms(3)]]
  obtain c where "heap s b = Some c" "unat (shared_cnt c) = owners b (sps s)" by blast
  then show ?thesis
    using assms(2,3)
    by (simp add: SharedPtr_UseCount_def SharedPtr_GetCBCounter_def call_GetSharedCounter_def
        GetSharedCounter_def)
qed


subsection \<open>UseCount\<close>

lemma list_all_take: "list_all P xs \<Longrightarrow> list_all P (take n xs)"
  by (auto simp: list_all_iff dest: in_set_takeD)

text \<open>
  Programs whose payloads hold no pointer objects (the states of this section: every
  pointer object stands on its own, and the destructor of a payload runs no pointer
  operation). Take any such program of fewer than \<open>2 ^ 64\<close> operations drawn from the
  \<^verbatim>\<open>SharedPtr\<close> operations that involve no \<^verbatim>\<open>WeakPtr\<close>: construction (default, from
  a raw pointer, \<^verbatim>\<open>MakeShared\<close>, copy, move, aliasing), copy and move assignment, both
  \<^verbatim>\<open>Reset\<close>s, \<^verbatim>\<open>Swap\<close> and destruction. The program never calls through a dangling
  control block, and after every prefix of it, \<^verbatim>\<open>UseCount()\<close> of every live
  \<^verbatim>\<open>SharedPtr\<close> that has a control block is the number of live \<^verbatim>\<open>SharedPtr\<close>s that
  have this block. (The bound keeps the 64-bit counter from wrapping around.) What
  happens when a payload holds a \<^verbatim>\<open>SharedPtr\<close> is the subject of the next section.
\<close>

lemma UseCount_is_number_of_owners:
  assumes "list_all shared_only xs" and "length xs < 2 ^ 64"
  shows "run xs init \<noteq> Inl DanglingControlBlock \<and>
         (\<forall>n s i h b. run (take n xs) init = Inr s \<and> the_sp i s = Inr h \<and> cb h = Some b \<longrightarrow>
            (\<exists>c. SharedPtr_UseCount i s = Inr c \<and> unat c = owners b (sps s)))"
proof (intro conjI allI impI)
  have "length (sps init) + length xs < 2 ^ 64" using assms(2) by (simp add: init_def)
  from run_counted [OF counted_init this assms(1)]
  show "run xs init \<noteq> Inl DanglingControlBlock" by auto
next
  fix n s i h b
  assume a: "run (take n xs) init = Inr s \<and> the_sp i s = Inr h \<and> cb h = Some b"
  have "length (sps init) + length (take n xs) < 2 ^ 64" using assms(2) by (simp add: init_def)
  from run_counted [OF counted_init this list_all_take [OF assms(1)]] a
  have "counted s" by auto
  from counted_UseCount [OF this] a
  show "\<exists>c. SharedPtr_UseCount i s = Inr c \<and> unat c = owners b (sps s)" by blast
qed

lemmas run_defs =
  init_def MakeShared_def SharedPtr_ptr_def SharedPtr_default_def allocate_def
  new_sp_def set_sp_def end_sp_def new_wp_def set_wp_def end_wp_def
  new_ControlBlockObject_def new_ControlBlockPointer_def GetPointer_def the_sp_def the_wp_def
  SharedPtr_copy_def SharedPtr_alias_def SharedPtr_Reset_def SharedPtr_destroy_def
  SharedPtr_UseCount_def SharedPtr_bool_def SharedPtr_GetCBCounter_def
  SharedPtr_IncreaseCBCounter_def SharedPtr_DecreaseCBCounter_def
  WeakPtr_from_shared_def WeakPtr_destroy_def WeakPtr_copy_def
  WeakPtr_IncreaseCBCounter_def WeakPtr_DecreaseCBCounter_def WeakPtr_GetCBCounter_def
  call_IncreaseSharedCounter_def call_DecreaseSharedCounter_def call_GetSharedCounter_def
  call_IncreaseWeakCounter_def call_DecreaseWeakCounter_def
  IncreaseSharedCounter_def DecreaseSharedCounter_unfold has_payload_def GetSharedCounter_def
  IncreaseWeakCounter_def DecreaseWeakCounter_def Let_def empty_handle_def

text \<open>
  The scenario \<^verbatim>\<open>a = MakeShared(42); b = a; a.Reset();\<close>: the counts are 1, then 2
  for both, then 0 for the empty \<^verbatim>\<open>a\<close> and 1 for \<^verbatim>\<open>b\<close>.
\<close>

lemma UseCount_scenario:
  "list_all shared_only [SP_MakeShared, SP_copy 0, SP_Reset 0] \<and>
   length [SP_MakeShared, SP_copy 0, SP_Reset 0] < 2 ^ 64 \<and>
   and_then (run [SP_MakeShared] init) (SharedPtr_UseCount 0) = Inr 1 \<and>
   and_then (run [SP_MakeShared, SP_copy 0] init) (SharedPtr_UseCount 0) = Inr 2 \<and>
   and_then (run [SP_MakeShared, SP_copy 0] init) (SharedPtr_UseCount 1) = Inr 2 \<and>
   and_then (run [SP_MakeShared, SP_copy 0, SP_Reset 0] init) (SharedPtr_UseCount 0) = Inr 0 \<and>
   and_then (run [SP_MakeShared, SP_copy 0, SP_Reset 0] init) (SharedPtr_UseCount 1) = Inr 1"
proof -
  have a: "list_all shared_only [SP_MakeShared, SP_copy 0, SP_Reset 0]" by simp
  have b: "length [SP_MakeShared, SP_copy 0, SP_Reset 0] < 2 ^ 64" by simp
  from UseCount_is_number_of_owners [OF a b]
  have "run [SP_MakeShared, SP_copy 0, SP_Reset 0] init \<noteq> Inl DanglingControlBlock" by blast
  then show ?thesis
    by (simp add: run_defs)
qed


section \<open>Counting owners when payloads hold pointers\<close>

subsection \<open>Payloads without members\<close>

text \<open>
  A payload without members is destroyed without a further call, and the operations on
  worlds are the operations on states of the sections above.
\<close>

lemma deep_DecreaseSharedCounter_no_members:
  assumes "members w = (\<lambda>p. [])"
  shows "deep_DecreaseSharedCounter (Suc n) b w = in_world (call_DecreaseSharedCounter b) w"
  using assms
  by (auto simp: in_world_def call_DecreaseSharedCounter_def DecreaseSharedCounter_def
      split: option.splits prod.splits)

lemma deep_DecreaseCBCounter_no_members:
  assumes "members w = (\<lambda>p. [])"
  shows "deep_DecreaseCBCounter (Suc n) h w = in_world (SharedPtr_DecreaseCBCounter h) w"
  using deep_DecreaseSharedCounter_no_members [OF assms]
  by (simp add: in_world_def deep_DecreaseCBCounter_def SharedPtr_DecreaseCBCounter_def
      split: option.splits)

lemma decrement_keeps_objects:
  "SharedPtr_DecreaseCBCounter h s = Inr s' \<Longrightarrow> the_sp i s' = the_sp i s"
  by (auto simp: SharedPtr_DecreaseCBCounter_def call_DecreaseSharedCounter_def the_sp_def
      split: option.splits prod.splits)

lemma world_exec_no_members:
  assumes "members w = (\<lambda>p. [])"
  shows "world_exec (Suc n) (Op x) w = in_world (exec x) w"
proof (cases x)
  case (SP_assign i j)
  show ?thesis
    unfolding SP_assign
    by (auto simp: deep_SharedPtr_assign_def SharedPtr_assign_def and_then_def in_world_def
          deep_DecreaseCBCounter_no_members [OF assms] decrement_keeps_objects
          split: sum.splits)
next
  case (SP_move_assign i j)
  show ?thesis
    unfolding SP_move_assign
    by (auto simp: deep_SharedPtr_move_assign_def SharedPtr_move_assign_def and_then_def
          in_world_def deep_DecreaseCBCounter_no_members [OF assms] decrement_keeps_objects
          split: sum.splits)
next
  case (SP_Reset i)
  show ?thesis
    unfolding SP_Reset
    by (auto simp: deep_SharedPtr_Reset_def SharedPtr_Reset_def and_then_def in_world_def
          deep_DecreaseCBCounter_no_members [OF assms] decrement_keeps_objects
          split: sum.splits)
next
  case (SP_Reset_ptr i p)
  show ?thesis
    unfolding SP_Reset_ptr
    by (auto simp: deep_SharedPtr_Reset_ptr_def SharedPtr_Reset_ptr_def and_then_def
          in_world_def deep_DecreaseCBCounter_no_members [OF assms] decrement_keeps_objects
          split: sum.splits prod.splits)
next
  case (SP_destroy i)
  show ?thesis
    unfolding SP_destroy
    by (auto simp: deep_SharedPtr_destroy_def SharedPtr_destroy_def and_then_def in_world_def
          deep_DecreaseCBCounter_no_members [OF assms] decrement_keeps_objects
          split: sum.splits)
qed simp_all

lemma world_run_no_members:
  assumes "members w = (\<lambda>p. [])"
  shows "world_run (Suc n) (map Op xs) w = in_world (run xs) w"
  using assms
proof (induction xs arbitrary: w)
  case Nil
  show ?case by (simp add: in_world_def)
next
  case (Cons x xs)
  show ?case
  proof (cases "exec x (st w)")
    case (Inl e)
    then show ?thesis by (simp add: world_exec_no_members [OF Cons.prems] in_world_def)
  next
    case (Inr s)
    have "members (w\<lparr>st := s\<rparr>) = (\<lambda>p. [])" using Cons.prems by simp
    from Cons.IH [OF this] Inr show ?thesis
      by (simp add: world_exec_no_members [OF Cons.prems] in_world_def)
  qed
qed

text \<open>
  So the count of the section above is the count in every world without members: a
  program of fewer than \<open>2 ^ 64\<close> \<^verbatim>\<open>SharedPtr\<close> operations, run with any bound but 0,
  never calls through a dangling control block, and after every prefix \<^verbatim>\<open>UseCount()\<close>
  of a live \<^verbatim>\<open>SharedPtr\<close> with a control block is the number of live \<^verbatim>\<open>SharedPtr\<close>s
  with this block.
\<close>

lemma UseCount_without_members:
  assumes "list_all shared_only xs" and "length xs < 2 ^ 64"
  shows "world_run (Suc n) (map Op xs) world_init \<noteq> Inl DanglingControlBlock \<and>
         (\<forall>k w i h b. world_run (Suc n) (map Op (take k xs)) world_init = Inr w \<and>
                      world_sp i w = Inr h \<and> cb h = Some b \<longrightarrow>
            (\<exists>c. world_UseCount i w = Inr c \<and> unat c = owners b (sps (st w))))"
proof (intro conjI allI impI)
  have m: "members world_init = (\<lambda>p. [])" by (simp add: world_init_def)
  from UseCount_is_number_of_owners [OF assms]
  have "run xs init \<noteq> Inl DanglingControlBlock" by blast
  moreover have "world_run (Suc n) (map Op xs) world_init = in_world (run xs) world_init"
    by (rule world_run_no_members [OF m])
  moreover have "st world_init = init" by (simp add: world_init_def)
  ultimately show "world_run (Suc n) (map Op xs) world_init \<noteq> Inl DanglingControlBlock"
    by (auto simp: in_world_def and_then_def split: sum.splits)
next
  fix k w i h b
  assume a: "world_run (Suc n) (map Op (take k xs)) world_init = Inr w \<and>
             world_sp i w = Inr h \<and> cb h = Some b"
  have m: "members world_init = (\<lambda>p. [])" by (simp add: world_init_def)
  from a have "in_world (run (take k xs)) world_init = Inr w"
    by (simp add: world_run_no_members [OF m])
  moreover have "st world_init = init" by (simp add: world_init_def)
  ultimately have r: "run (take k xs) init = Inr (st w)"
    by (auto simp: in_world_def and_then_def split: sum.splits)
  from UseCount_is_number_of_owners [OF assms] r a
  show "\<exists>c. world_UseCount i w = Inr c \<and> unat c = owners b (sps (st w))"
    unfolding world_sp_def world_UseCount_def by blast
qed

subsection \<open>Assignment from a pointer that the payload holds\<close>

lemmas world_defs =
  two_nodes_def world_init_def world_UseCount_def world_sp_def world_released_def
  world_deleted_def in_world_def deep_SharedPtr_assign_def deep_SharedPtr_move_assign_def
  deep_SharedPtr_destroy_def deep_SharedPtr_Reset_def deep_SharedPtr_Reset_ptr_def
  deep_DecreaseCBCounter_def DecreaseSharedCounter_release_def
  DecreaseSharedCounter_delete_def SharedPtr_Swap_def

text \<open>
  The list of two nodes: \<^verbatim>\<open>a\<close> (object 1) is the one owner of the first node, and the
  member \<^verbatim>\<open>next\<close> of the first node (object 0) is the one owner of the second node.
  No payload is released and no block deleted so far.
\<close>

lemma two_nodes_built:
  "and_then (world_run (Suc (Suc n)) two_nodes world_init) (world_sp 1) =
     Inr \<lparr>cb = Some 0, observed = Ext 1\<rparr> \<and>
   and_then (world_run (Suc (Suc n)) two_nodes world_init) (world_UseCount 1) = Inr 1 \<and>
   and_then (world_run (Suc (Suc n)) two_nodes world_init) (world_sp 0) =
     Inr \<lparr>cb = Some 1, observed = Ext 2\<rparr> \<and>
   and_then (world_run (Suc (Suc n)) two_nodes world_init) (world_UseCount 0) = Inr 1 \<and>
   and_then (world_run (Suc (Suc n)) two_nodes world_init) world_released = Inr [] \<and>
   and_then (world_run (Suc (Suc n)) two_nodes world_init) world_deleted = Inr []"
  by (simp add: world_defs run_defs)

text \<open>
  Claim C2 at the input where the code departs from it. The claim gives, for every
  sequence of the \<^verbatim>\<open>SharedPtr\<close> operations and at every point between them, the number
  of live owners of a block as the \<^verbatim>\<open>UseCount()\<close> of each of them. On the list of two
  nodes, \<^verbatim>\<open>a = a->next\<close> (copy assignment of object 0 to object 1) should leave
  \<^verbatim>\<open>a\<close> the one owner of the second node, with count 1; \<^verbatim>\<open>a = std::move(a->next)\<close>
  likewise. In the code, both assignments decrement first: the first node is destroyed,
  with it its member \<^verbatim>\<open>next\<close>, with that the second node, and both control blocks
  are deleted (the two payloads released, the two blocks deleted: what the program
  \<^verbatim>\<open>a.Reset()\<close> leaves). Only then is the operand read: it is the destroyed member.
  No state follows, and no count. This holds with every bound on the nesting that
  lets the two destructors run.
\<close>

theorem assignment_reads_destroyed_operand:
  "world_run (Suc (Suc n)) (two_nodes @ [Op (SP_assign 1 0)]) world_init = Inl NoSuchObject \<and>
   world_run (Suc (Suc n)) (two_nodes @ [Op (SP_move_assign 1 0)]) world_init
     = Inl NoSuchObject \<and>
   and_then (world_run (Suc (Suc n)) (two_nodes @ [Op (SP_Reset 1)]) world_init) (world_sp 0)
     = Inl NoSuchObject \<and>
   and_then (world_run (Suc (Suc n)) (two_nodes @ [Op (SP_Reset 1)]) world_init) world_released
     = Inr [Ext 2, Ext 1] \<and>
   and_then (world_run (Suc (Suc n)) (two_nodes @ [Op (SP_Reset 1)]) world_init) world_deleted
     = Inr [0, 1]"
  by (simp add: world_defs run_defs)

text \<open>
  The same assignment written with the other operations of the class, a copy of the
  operand, \<^verbatim>\<open>Swap\<close> and the destruction of the copy, takes the operand before anything
  is released: \<^verbatim>\<open>a\<close> is then the one owner of the second node, which lives on.
\<close>

lemma copy_and_swap_keeps_the_count:
  "and_then (world_run (Suc (Suc n))
               (two_nodes @ [Op (SP_copy 0), Op (SP_Swap 1 4), Op (SP_destroy 4)]) world_init)
            (world_sp 1) = Inr \<lparr>cb = Some 1, observed = Ext 2\<rparr> \<and>
   and_then (world_run (Suc (Suc n))
               (two_nodes @ [Op (SP_copy 0), Op (SP_Swap 1 4), Op (SP_destroy 4)]) world_init)
            (world_UseCount 1) = Inr 1 \<and>
   and_then (world_run (Suc (Suc n))
               (two_nodes @ [Op (SP_copy 0), Op (SP_Swap 1 4), Op (SP_destroy 4)]) world_init)
            world_released = Inr [Ext 1]"
  by (simp add: world_defs run_defs)

section \<open>Expired, Lock and promotion\<close>

text \<open>
  Claim C5. For a \<^verbatim>\<open>WeakPtr\<close> \<open>w\<close>: \<^verbatim>\<open>Expired()\<close> is true when \<open>w\<close> has no control
  block, and otherwise it is true exactly when the strong count of its block is 0,
  whatever the weak count is. In particular, when the last owner gives up a block that
  observers still reference (\<^verbatim>\<open>DecreaseSharedCounter\<close> from strong count 1, weak count
  not 0), the block stays, its weak count is still not 0, and \<open>w\<close> reports expired.
\<close>

theorem Expired_spec:
  assumes "the_wp w s = Inr h"
  shows "(cb h = None \<longrightarrow> WeakPtr_Expired w s = Inr True) \<and>
         (\<forall>b c. cb h = Some b \<and> heap s b = Some c \<longrightarrow>
            WeakPtr_Expired w s = Inr (shared_cnt c = 0) \<and>
            (\<forall>s'. shared_cnt c = 1 \<and> weak_cnt c \<noteq> 0 \<and> call_DecreaseSharedCounter b s = Inr s' \<longrightarrow>
               (\<exists>c'. heap s' b = Some c' \<and> weak_cnt c' \<noteq> 0) \<and> WeakPtr_Expired w s' = Inr True))"
  using assms
  by (auto simp: WeakPtr_Expired_def Expired_def WeakPtr_GetCBCounter_def call_GetSharedCounter_def
      GetSharedCounter_def call_DecreaseSharedCounter_def DecreaseSharedCounter_unfold has_payload_def Let_def the_wp_def
      split: option.splits if_splits)

text \<open>Claim C5 on the example states: not expired while owned, expired after the reset.\<close>

theorem Expired_spec_witness:
  "the_wp 0 observed_state = Inr \<lparr>cb = Some 0, observed = Obj 0\<rparr> \<and>
   WeakPtr_Expired 0 observed_state = Inr False \<and>
   the_wp 0 expired_state = Inr \<lparr>cb = Some 0, observed = Obj 0\<rparr> \<and>
   WeakPtr_Expired 0 expired_state = Inr True \<and>
   map_option weak_cnt (heap expired_state 0) = Some 1"
  using Expired_spec [of 0 observed_state "\<lparr>cb = Some 0, observed = Obj 0\<rparr>"]
    Expired_spec [of 0 expired_state "\<lparr>cb = Some 0, observed = Obj 0\<rparr>"]
  by (simp add: observed_state_def expired_state_def the_wp_def)

text \<open>
  Claim C3. For a \<^verbatim>\<open>WeakPtr\<close> \<open>w\<close>: when \<open>w\<close> has no control block or the strong count
  of its block is 0, \<^verbatim>\<open>Lock()\<close> returns an empty \<^verbatim>\<open>SharedPtr\<close> and nothing else
  changes. Otherwise it returns a \<^verbatim>\<open>SharedPtr\<close> with the control block and the observed
  address of \<open>w\<close>, and the only other change is that the strong count of the block is one
  more (as a number, unless it was \<^verbatim>\<open>SIZE_MAX\<close>); the weak count is as before.
\<close>

theorem Lock_spec:
  assumes "the_wp w s = Inr h"
  shows "(cb h = None \<longrightarrow> WeakPtr_Lock w s = Inr (new_sp empty_handle s)) \<and>
         (\<forall>b c. cb h = Some b \<and> heap s b = Some c \<longrightarrow>
            (shared_cnt c = 0 \<longrightarrow> WeakPtr_Lock w s = Inr (new_sp empty_handle s)) \<and>
            (shared_cnt c \<noteq> 0 \<longrightarrow>
               WeakPtr_Lock w s =
                 Inr (new_sp \<lparr>cb = Some b, observed = observed h\<rparr>
                        (s\<lparr>heap := (heap s)(b \<mapsto> c\<lparr>shared_cnt := shared_cnt c + 1\<rparr>)\<rparr>)) \<and>
               (shared_cnt c \<noteq> - 1 \<longrightarrow> unat (shared_cnt c + 1) = unat (shared_cnt c) + 1)))"
  using assms
  by (auto simp: WeakPtr_Lock_def Expired_def WeakPtr_GetCBCounter_def call_GetSharedCounter_def
      GetSharedCounter_def SharedPtr_IncreaseCBCounter_def call_IncreaseSharedCounter_def
      IncreaseSharedCounter_def unat_succ)

text \<open>Claim C3 on the example states: a second owner while owned, an empty pointer after.\<close>

theorem Lock_spec_witness:
  "the_wp 0 observed_state = Inr \<lparr>cb = Some 0, observed = Obj 0\<rparr> \<and>
   WeakPtr_Lock 0 observed_state =
     Inr (new_sp \<lparr>cb = Some 0, observed = Obj 0\<rparr>
           (observed_state\<lparr>heap := (heap observed_state)
              (0 \<mapsto> \<lparr>cls = ControlBlockObject, shared_cnt = 2, weak_cnt = 1\<rparr>)\<rparr>)) \<and>
   the_wp 0 expired_state = Inr \<lparr>cb = Some 0, observed = Obj 0\<rparr> \<and>
   WeakPtr_Lock 0 expired_state = Inr (new_sp empty_handle expired_state)"
  using Lock_spec [of 0 observed_state "\<lparr>cb = Some 0, observed = Obj 0\<rparr>"]
    Lock_spec [of 0 expired_state "\<lparr>cb = Some 0, observed = Obj 0\<rparr>"]
  by (simp add: observed_state_def expired_state_def the_wp_def)

text \<open>
  Claim C4. For a \<^verbatim>\<open>WeakPtr\<close> \<open>w\<close>, \<^verbatim>\<open>SharedPtr(w)\<close> throws \<^verbatim>\<open>BadWeakPtr\<close> exactly
  when \<open>w\<close> reports the strong count 0 (\<^verbatim>\<open>UseCount() == 0\<close>: the strong count of its
  block is 0, or \<open>w\<close> has no block at all), and the exception leaves the state as it
  was. When it does not throw, the new \<^verbatim>\<open>SharedPtr\<close> has the control block and the
  observed address of \<open>w\<close>, and the only other change is that the strong count of the
  block is one more.
\<close>

theorem SharedPtr_from_weak_spec:
  assumes "the_wp w s = Inr h"
  shows "(cb h = None \<longrightarrow>
            WeakPtr_UseCount w s = Inr 0 \<and> SharedPtr_from_weak w s = Inl (BadWeakPtr s)) \<and>
         (\<forall>b c. cb h = Some b \<and> heap s b = Some c \<longrightarrow>
            WeakPtr_UseCount w s = Inr (shared_cnt c) \<and>
            (shared_cnt c = 0 \<longrightarrow> SharedPtr_from_weak w s = Inl (BadWeakPtr s)) \<and>
            (shared_cnt c \<noteq> 0 \<longrightarrow>
               SharedPtr_from_weak w s =
                 Inr (new_sp \<lparr>cb = Some b, observed = observed h\<rparr>
                        (s\<lparr>heap := (heap s)(b \<mapsto> c\<lparr>shared_cnt := shared_cnt c + 1\<rparr>)\<rparr>)) \<and>
               (shared_cnt c \<noteq> - 1 \<longrightarrow> unat (shared_cnt c + 1) = unat (shared_cnt c) + 1)))"
  using assms
  by (auto simp: SharedPtr_from_weak_def WeakPtr_UseCount_def Expired_def WeakPtr_GetCBCounter_def
      call_GetSharedCounter_def GetSharedCounter_def SharedPtr_IncreaseCBCounter_def
      call_IncreaseSharedCounter_def IncreaseSharedCounter_def unat_succ)

text \<open>Claim C4 on the example states: a second owner while owned, the exception after.\<close>

theorem SharedPtr_from_weak_spec_witness:
  "the_wp 0 observed_state = Inr \<lparr>cb = Some 0, observed = Obj 0\<rparr> \<and>
   SharedPtr_from_weak 0 observed_state =
     Inr (new_sp \<lparr>cb = Some 0, observed = Obj 0\<rparr>
           (observed_state\<lparr>heap := (heap observed_state)
              (0 \<mapsto> \<lparr>cls = ControlBlockObject, shared_cnt = 2, weak_cnt = 1\<rparr>)\<rparr>)) \<and>
   the_wp 0 expired_state = Inr \<lparr>cb = Some 0, observed = Obj 0\<rparr> \<and>
   WeakPtr_UseCount 0 expired_state = Inr 0 \<and>
   SharedPtr_from_weak 0 expired_state = Inl (BadWeakPtr expired_state)"
  using SharedPtr_from_weak_spec [of 0 observed_state "\<lparr>cb = Some 0, observed = Obj 0\<rparr>"]
    SharedPtr_from_weak_spec [of 0 expired_state "\<lparr>cb = Some 0, observed = Obj 0\<rparr>"]
  by (simp add: observed_state_def expired_state_def the_wp_def)

section \<open>Assigning a SharedPtr to a WeakPtr\<close>

text \<open>
  Claim C9. When the \<^verbatim>\<open>WeakPtr\<close> \<open>w\<close> and the \<^verbatim>\<open>SharedPtr\<close> \<open>p\<close> have the same
  control block (or both none), \<^verbatim>\<open>w = p\<close> changes nothing: not the observed address
  of \<open>w\<close>, not a counter, whatever observed address \<open>p\<close> has.
\<close>

theorem WeakPtr_assign_shared_same_block:
  assumes "the_wp w s = Inr hw" and "the_sp p s = Inr hp" and "cb hw = cb hp"
  shows "WeakPtr_assign_shared w p s = Inr s"
  using assms by (simp add: WeakPtr_assign_shared_def)

text \<open>
  Claim C9 on \<open>aliased_state\<close>: the observer caches the address 1, the aliasing owner
  exposes the address 2, and the assignment leaves the observer as it was.
\<close>

theorem WeakPtr_assign_shared_same_block_witness:
  "the_wp 0 aliased_state = Inr \<lparr>cb = Some 0, observed = Ext 1\<rparr> \<and>
   the_sp 1 aliased_state = Inr \<lparr>cb = Some 0, observed = Ext 2\<rparr> \<and>
   WeakPtr_assign_shared 0 1 aliased_state = Inr aliased_state"
  using WeakPtr_assign_shared_same_block
    [of 0 aliased_state "\<lparr>cb = Some 0, observed = Ext 1\<rparr>" 1 "\<lparr>cb = Some 0, observed = Ext 2\<rparr>"]
  by (simp add: aliased_state_def the_wp_def the_sp_def)


section \<open>Which pointers are coherent\<close>

lemma objects_simps [simp]:
  "wps (new_sp h s) = wps s" "wps (set_sp i h s) = wps s" "wps (end_sp i s) = wps s"
  "sps (new_wp h s) = sps s" "sps (set_wp i h s) = sps s" "sps (end_wp i s) = sps s"
  "wps (new_wp h s) = wps s @ [Some h]"
  "wps (set_wp i h s) = (wps s)[i := Some h]"
  "wps (end_wp i s) = (wps s)[i := None]"
  by (simp_all add: new_sp_def set_sp_def end_sp_def new_wp_def set_wp_def end_wp_def)

lemma helpers_keep_objects:
  "SharedPtr_IncreaseCBCounter h s = Inr s' \<Longrightarrow> sps s' = sps s \<and> wps s' = wps s"
  "SharedPtr_DecreaseCBCounter h s = Inr s' \<Longrightarrow> sps s' = sps s \<and> wps s' = wps s"
  "WeakPtr_IncreaseCBCounter h s = Inr s' \<Longrightarrow> sps s' = sps s \<and> wps s' = wps s"
  "WeakPtr_DecreaseCBCounter h s = Inr s' \<Longrightarrow> sps s' = sps s \<and> wps s' = wps s"
  "allocate c s = (b, s') \<Longrightarrow> sps s' = sps s \<and> wps s' = wps s"
  by (auto simp: SharedPtr_IncreaseCBCounter_def SharedPtr_DecreaseCBCounter_def
      WeakPtr_IncreaseCBCounter_def WeakPtr_DecreaseCBCounter_def
      call_IncreaseSharedCounter_def call_DecreaseSharedCounter_def
      call_IncreaseWeakCounter_def call_DecreaseWeakCounter_def allocate_def
      split: option.splits prod.splits)

lemma coherent_obj_simps [simp]:
  "coherent_obj None" "coherent_obj (Some h) = coherent h" "coherent empty_handle"
  by (simp_all add: coherent_obj_def coherent_def empty_handle_def)

lemma list_all_list_update: "list_all P xs \<Longrightarrow> P y \<Longrightarrow> list_all P (xs[i := y])"
  by (induction xs arbitrary: i) (auto split: nat.splits)

lemma coherent_the_sp: "all_coherent s \<Longrightarrow> the_sp i s = Inr h \<Longrightarrow> coherent h"
  by (auto simp: all_coherent_def the_sp_def list_all_length split: if_splits option.splits)

lemma coherent_the_wp: "all_coherent s \<Longrightarrow> the_wp i s = Inr h \<Longrightarrow> coherent h"
  by (auto simp: all_coherent_def the_wp_def list_all_length split: if_splits option.splits)

lemma coherent_the_sp_after:
  "all_coherent s \<Longrightarrow> sps s' = sps s \<Longrightarrow> the_sp i s' = Inr h \<Longrightarrow> coherent h"
  using coherent_the_sp [of s i h] the_sp_cong [of s' s i] by simp

lemma all_coherent_I:
  "list_all coherent_obj (sps s) \<Longrightarrow> list_all coherent_obj (wps s) \<Longrightarrow> all_coherent s"
  by (simp add: all_coherent_def)

lemma all_coherent_D:
  "all_coherent s \<Longrightarrow> list_all coherent_obj (sps s) \<and> list_all coherent_obj (wps s)"
  by (simp add: all_coherent_def)

lemma exec_coherent:
  assumes "all_coherent s" "keeps_coherent x s" "exec x s = Inr s'"
  shows "all_coherent s'"
proof -
  note o = all_coherent_D [OF assms(1)]
  note sp = coherent_the_sp [OF assms(1)]
  note wp = coherent_the_wp [OF assms(1)]
  show ?thesis
  proof (cases x)
    case SP_default
    with assms o show ?thesis by (auto simp: SharedPtr_default_def intro!: all_coherent_I)
  next
    case (SP_ptr p)
    with assms o show ?thesis
      by (auto simp: SharedPtr_ptr_def coherent_def intro!: all_coherent_I
          split: prod.splits dest!: helpers_keep_objects)
  next
    case SP_MakeShared
    with assms o show ?thesis
      by (auto simp: MakeShared_def coherent_def GetPointer_def new_ControlBlockObject_def
          intro!: all_coherent_I split: prod.splits dest!: helpers_keep_objects)
  next
    case (SP_copy j)
    with assms o sp show ?thesis
      by (auto simp: SharedPtr_copy_def and_then_eq_Inr intro!: all_coherent_I
          dest!: helpers_keep_objects)
  next
    case (SP_move j)
    with assms o sp show ?thesis
      by (auto simp: SharedPtr_move_def and_then_eq_Inr intro!: all_coherent_I list_all_list_update)
  next
    case (SP_alias j p)
    with assms o sp show ?thesis
      by (auto simp: SharedPtr_alias_def and_then_eq_Inr coherent_def intro!: all_coherent_I
          dest!: helpers_keep_objects)
  next
    case (SP_from_weak j)
    with assms o wp show ?thesis
      by (auto simp: SharedPtr_from_weak_def and_then_eq_Inr coherent_def intro!: all_coherent_I
          split: if_splits dest!: helpers_keep_objects)
  next
    case (SP_assign i j)
    show ?thesis
    proof (cases "i = j")
      case True
      with assms SP_assign show ?thesis
        by (auto simp: SharedPtr_assign_def and_then_eq_Inr)
    next
      case False
      with assms(3) SP_assign obtain h s1 h' where r: "the_sp i s = Inr h"
        "SharedPtr_DecreaseCBCounter h s = Inr s1" "the_sp j s1 = Inr h'"
        "SharedPtr_IncreaseCBCounter h' (set_sp i h' s1) = Inr s'"
        by (auto simp: SharedPtr_assign_def and_then_eq_Inr)
      from helpers_keep_objects(2) [OF r(2)] have k: "sps s1 = sps s" "wps s1 = wps s" by simp_all
      from coherent_the_sp_after [OF assms(1) k(1) r(3)] have "coherent h'" .
      with helpers_keep_objects(1) [OF r(4)] k o show ?thesis
        by (auto intro!: all_coherent_I list_all_list_update)
    qed
  next
    case (SP_move_assign i j)
    show ?thesis
    proof (cases "i = j")
      case True
      with assms SP_move_assign show ?thesis
        by (auto simp: SharedPtr_move_assign_def and_then_eq_Inr)
    next
      case False
      with assms(3) SP_move_assign obtain h s1 h' where r: "the_sp i s = Inr h"
        "SharedPtr_DecreaseCBCounter h s = Inr s1" "the_sp j s1 = Inr h'"
        "s' = set_sp j empty_handle (set_sp i h' s1)"
        by (auto simp: SharedPtr_move_assign_def and_then_eq_Inr)
      from helpers_keep_objects(2) [OF r(2)] have k: "sps s1 = sps s" "wps s1 = wps s" by simp_all
      from coherent_the_sp_after [OF assms(1) k(1) r(3)] have "coherent h'" .
      with r(4) k o show ?thesis
        by (auto intro!: all_coherent_I list_all_list_update)
    qed
  next
    case (SP_Reset i)
    with assms o show ?thesis
      by (auto simp: SharedPtr_Reset_def and_then_eq_Inr
          intro!: all_coherent_I list_all_list_update dest!: helpers_keep_objects)
  next
    case (SP_Reset_ptr i p)
    with assms o show ?thesis
      by (auto simp: SharedPtr_Reset_ptr_def and_then_eq_Inr coherent_def allocate_def
          intro!: all_coherent_I list_all_list_update dest!: helpers_keep_objects)
  next
    case (SP_Swap i j)
    with assms o sp show ?thesis
      by (auto simp: SharedPtr_Swap_def and_then_eq_Inr
          intro!: all_coherent_I list_all_list_update)
  next
    case (SP_destroy i)
    with assms o show ?thesis
      by (auto simp: SharedPtr_destroy_def and_then_eq_Inr
          intro!: all_coherent_I list_all_list_update dest!: helpers_keep_objects)
  next
    case WP_default
    with assms o show ?thesis by (auto simp: WeakPtr_default_def intro!: all_coherent_I)
  next
    case (WP_copy j)
    with assms o wp show ?thesis
      by (auto simp: WeakPtr_copy_def and_then_eq_Inr intro!: all_coherent_I
          dest!: helpers_keep_objects)
  next
    case (WP_move j)
    with assms o wp show ?thesis
      by (auto simp: WeakPtr_move_def and_then_eq_Inr intro!: all_coherent_I list_all_list_update)
  next
    case (WP_from_shared j)
    with assms o sp show ?thesis
      by (auto simp: WeakPtr_from_shared_def and_then_eq_Inr coherent_def intro!: all_coherent_I
          split: if_splits dest!: helpers_keep_objects)
  next
    case (WP_assign i j)
    with assms o wp show ?thesis
      by (auto simp: WeakPtr_assign_def and_then_eq_Inr
          intro!: all_coherent_I list_all_list_update split: if_splits dest!: helpers_keep_objects)
  next
    case (WP_move_assign i j)
    with assms o wp show ?thesis
      by (auto simp: WeakPtr_move_assign_def and_then_eq_Inr
          intro!: all_coherent_I list_all_list_update split: if_splits dest!: helpers_keep_objects)
  next
    case (WP_assign_shared i j)
    with assms o sp show ?thesis
      by (auto simp: WeakPtr_assign_shared_def and_then_eq_Inr coherent_def
          intro!: all_coherent_I list_all_list_update split: if_splits dest!: helpers_keep_objects)
  next
    case (WP_Reset i)
    with assms o show ?thesis
      by (auto simp: WeakPtr_Reset_def and_then_eq_Inr
          intro!: all_coherent_I list_all_list_update dest!: helpers_keep_objects)
  next
    case (WP_Swap i j)
    with assms o wp show ?thesis
      by (auto simp: WeakPtr_Swap_def and_then_eq_Inr
          intro!: all_coherent_I list_all_list_update)
  next
    case (WP_destroy i)
    with assms o show ?thesis
      by (auto simp: WeakPtr_destroy_def and_then_eq_Inr
          intro!: all_coherent_I list_all_list_update dest!: helpers_keep_objects)
  next
    case (WP_Lock i)
    with assms o wp show ?thesis
      by (auto simp: WeakPtr_Lock_def and_then_eq_Inr coherent_def empty_handle_def
          intro!: all_coherent_I
          split: if_splits dest!: helpers_keep_objects)
  qed
qed

lemma run_coherent:
  "all_coherent s \<Longrightarrow> coherent_program xs s \<Longrightarrow> run xs s = Inr s' \<Longrightarrow> all_coherent s'"
proof (induction xs arbitrary: s)
  case Nil
  then show ?case by simp
next
  case (Cons x xs)
  from Cons.prems(3) obtain s1 where s1: "exec x s = Inr s1" "run xs s1 = Inr s'"
    by (auto simp: and_then_eq_Inr)
  from Cons.prems(2) s1(1) have k: "keeps_coherent x s" "coherent_program xs s1" by simp_all
  from exec_coherent [OF Cons.prems(1) k(1) s1(1)] have "all_coherent s1" .
  from Cons.IH [OF this k(2) s1(2)] show ?case .
qed

lemma all_coherent_init: "all_coherent init"
  by (simp add: all_coherent_def init_def)

text \<open>
  Claim C7, as the code has it. After any program in which no null address is adopted
  (by the constructor from a raw pointer or by \<^verbatim>\<open>Reset\<close>) and every aliasing
  construction gives a null address exactly when its source has no control block, every
  live \<^verbatim>\<open>SharedPtr\<close> has a null observed address exactly when it has no control block.
  The program may use every other operation of both classes: default construction,
  \<^verbatim>\<open>MakeShared\<close>, copy, move, promotion, \<^verbatim>\<open>Lock\<close>, the assignments, \<^verbatim>\<open>Reset()\<close>,
  \<^verbatim>\<open>Swap\<close>, destruction.
\<close>

theorem SharedPtr_coherent:
  assumes "coherent_program xs init" and "run xs init = Inr s" and "the_sp i s = Inr h"
  shows "(observed h = nullptr) = (cb h = None)"
  using coherent_the_sp [OF run_coherent [OF all_coherent_init assms(1,2)] assms(3)]
  by (simp add: coherent_def)

text \<open>
  Claim C7 on a program with an adoption, a combined allocation, an aliasing construction, a
  reset and a default construction: the four pointers it leaves are all coherent.
\<close>

theorem SharedPtr_coherent_witness:
  "coherent_program [SP_MakeShared, SP_ptr (Ext 1), SP_alias 0 (Ext 2), SP_Reset 0, SP_default] init \<and>
   run [SP_MakeShared, SP_ptr (Ext 1), SP_alias 0 (Ext 2), SP_Reset 0, SP_default] init =
     Inr \<lparr>heap = (\<lambda>b. None)
                (0 \<mapsto> \<lparr>cls = ControlBlockObject, shared_cnt = 1, weak_cnt = 0\<rparr>,
                 1 \<mapsto> \<lparr>cls = ControlBlockPointer (Ext 1), shared_cnt = 1, weak_cnt = 0\<rparr>),
          next_cb = 2, released = [], deleted = [],
          sps = [Some \<lparr>cb = None, observed = nullptr\<rparr>, Some \<lparr>cb = Some 1, observed = Ext 1\<rparr>,
                 Some \<lparr>cb = Some 0, observed = Ext 2\<rparr>, Some \<lparr>cb = None, observed = nullptr\<rparr>],
          wps = []\<rparr>"
  using SharedPtr_coherent
    [of "[SP_MakeShared, SP_ptr (Ext 1), SP_alias 0 (Ext 2), SP_Reset 0, SP_default]" _ 0]
  by (simp add: run_defs fun_upd_twist)

text \<open>
  Claim C7 as stated, for every public operation, fails: the adoption of a null address
  builds a control block for it, and the aliasing constructor takes any address with any
  source. The first two pointers have a block and a null observed address, the third has
  an observed address and no block.
\<close>

theorem incoherent_SharedPtr:
  "and_then (run [SP_ptr nullptr] init) (the_sp 0) = Inr \<lparr>cb = Some 0, observed = nullptr\<rparr> \<and>
   and_then (run [SP_MakeShared, SP_alias 0 nullptr] init) (the_sp 1) =
     Inr \<lparr>cb = Some 0, observed = nullptr\<rparr> \<and>
   and_then (run [SP_default, SP_alias 0 (Ext 7)] init) (the_sp 1) =
     Inr \<lparr>cb = None, observed = Ext 7\<rparr>"
  by (simp add: run_defs)

section \<open>WeakPtr from SharedPtr\<close>

text \<open>
  Claim C6 at the input where the code departs from it: a \<^verbatim>\<open>SharedPtr\<close> that has a
  control block and a null observed address (built from a null \<^verbatim>\<open>T*\<close>, or by the
  aliasing constructor with a null address). \<^verbatim>\<open>WeakPtr(const SharedPtr<T>&)\<close> takes
  the block and leaves its weak count at 0. When the owner is destroyed the block is
  deleted under the observer, whose destructor then calls through the dangling
  \<^verbatim>\<open>cb_\<close>.
\<close>

theorem WeakPtr_from_shared_misses_increment:
  "and_then (run [SP_ptr nullptr, WP_from_shared 0] init) (the_sp 0) =
     Inr \<lparr>cb = Some 0, observed = nullptr\<rparr> \<and>
   and_then (run [SP_ptr nullptr, WP_from_shared 0] init) (the_wp 0) =
     Inr \<lparr>cb = Some 0, observed = nullptr\<rparr> \<and>
   and_then (run [SP_ptr nullptr, WP_from_shared 0] init) (read_weak_cnt 0) = Inr 0 \<and>
   run [SP_ptr nullptr, WP_from_shared 0, SP_destroy 0, WP_destroy 0] init =
     Inl DanglingControlBlock \<and>
   and_then (run [SP_MakeShared, SP_alias 0 nullptr, WP_from_shared 1] init) (the_wp 0) =
     Inr \<lparr>cb = Some 0, observed = nullptr\<rparr> \<and>
   and_then (run [SP_MakeShared, SP_alias 0 nullptr, WP_from_shared 1] init) (read_weak_cnt 0) =
     Inr 0"
  by (simp add: run_defs read_weak_cnt_def)

text \<open>
  Where the \<^verbatim>\<open>SharedPtr\<close> is coherent, the constructor does what claim C6 says: the
  weak count goes up by one exactly when there is a control block, and both fields are
  copied.
\<close>

lemma WeakPtr_from_shared_coherent:
  assumes "the_sp p s = Inr h" and "coherent h"
  shows "(cb h = None \<longrightarrow> WeakPtr_from_shared p s = Inr (new_wp h s)) \<and>
         (\<forall>b c. cb h = Some b \<and> heap s b = Some c \<longrightarrow>
            WeakPtr_from_shared p s =
              Inr (new_wp h (s\<lparr>heap := (heap s)(b \<mapsto> c\<lparr>weak_cnt := weak_cnt c + 1\<rparr>)\<rparr>)))"
  using assms
  by (cases h)
     (auto simp: WeakPtr_from_shared_def coherent_def WeakPtr_IncreaseCBCounter_def
        call_IncreaseWeakCounter_def IncreaseWeakCounter_def)


section \<open>Operations on empty pointers\<close>

lemma same_blocks_objects [simp]:
  "same_blocks s s"
  "same_blocks s (new_sp h s')= same_blocks s s'"
  "same_blocks s (set_sp i h s') = same_blocks s s'"
  "same_blocks s (end_sp i s') = same_blocks s s'"
  "same_blocks s (new_wp h s') = same_blocks s s'"
  "same_blocks s (set_wp i h s') = same_blocks s s'"
  "same_blocks s (end_wp i s') = same_blocks s s'"
  by (simp_all add: same_blocks_def new_sp_def set_sp_def end_sp_def new_wp_def set_wp_def
      end_wp_def)

text \<open>
  Claim C10, as the code has it. On a \<^verbatim>\<open>SharedPtr\<close> or a \<^verbatim>\<open>WeakPtr\<close> with no
  control block, in any state (there need not be any control block at all): destruction,
  \<^verbatim>\<open>Reset\<close>, copy construction, move construction and \<^verbatim>\<open>Swap\<close> (on either side,
  with any other pointer) succeed and change only pointer objects, no block, counter,
  release or deletion; \<^verbatim>\<open>UseCount()\<close> is 0; an empty \<^verbatim>\<open>WeakPtr\<close> is expired and
  its \<^verbatim>\<open>Lock()\<close> gives an empty \<^verbatim>\<open>SharedPtr\<close>. \<^verbatim>\<open>operator bool\<close> of the
  \<^verbatim>\<open>SharedPtr\<close> tells whether the observed address is not null: it is false when the
  pointer is coherent.
\<close>

theorem empty_pointer_operations:
  "(\<forall>h. the_sp i s = Inr h \<and> cb h = None \<longrightarrow>
      SharedPtr_destroy i s = Inr (end_sp i s) \<and> same_blocks s (end_sp i s) \<and>
      SharedPtr_Reset i s = Inr (set_sp i empty_handle s) \<and>
      same_blocks s (set_sp i empty_handle s) \<and>
      SharedPtr_copy i s = Inr (new_sp h s) \<and> same_blocks s (new_sp h s) \<and>
      SharedPtr_move i s = Inr (new_sp h (set_sp i empty_handle s)) \<and>
      same_blocks s (new_sp h (set_sp i empty_handle s)) \<and>
      (\<forall>j h'. the_sp j s = Inr h' \<longrightarrow>
         SharedPtr_Swap i j s = Inr (set_sp j h (set_sp i h' s)) \<and>
         SharedPtr_Swap j i s = Inr (set_sp i h' (set_sp j h s)) \<and>
         same_blocks s (set_sp j h (set_sp i h' s)) \<and>
         same_blocks s (set_sp i h' (set_sp j h s))) \<and>
      SharedPtr_UseCount i s = Inr 0 \<and>
      SharedPtr_bool i s = Inr (observed h \<noteq> nullptr) \<and>
      (coherent h \<longrightarrow> SharedPtr_bool i s = Inr False)) \<and>
   (\<forall>w. the_wp k s = Inr w \<and> cb w = None \<longrightarrow>
      WeakPtr_destroy k s = Inr (end_wp k s) \<and> same_blocks s (end_wp k s) \<and>
      WeakPtr_Reset k s = Inr (set_wp k empty_handle s) \<and>
      same_blocks s (set_wp k empty_handle s) \<and>
      WeakPtr_copy k s = Inr (new_wp w s) \<and> same_blocks s (new_wp w s) \<and>
      WeakPtr_move k s = Inr (new_wp w (set_wp k empty_handle s)) \<and>
      same_blocks s (new_wp w (set_wp k empty_handle s)) \<and>
      (\<forall>j w'. the_wp j s = Inr w' \<longrightarrow>
         WeakPtr_Swap k j s = Inr (set_wp j w (set_wp k w' s)) \<and>
         WeakPtr_Swap j k s = Inr (set_wp k w' (set_wp j w s)) \<and>
         same_blocks s (set_wp j w (set_wp k w' s)) \<and>
         same_blocks s (set_wp k w' (set_wp j w s))) \<and>
      WeakPtr_UseCount k s = Inr 0 \<and>
      WeakPtr_Expired k s = Inr True \<and>
      WeakPtr_Lock k s = Inr (new_sp empty_handle s) \<and> same_blocks s (new_sp empty_handle s))"
  by (auto simp: SharedPtr_destroy_def SharedPtr_Reset_def SharedPtr_copy_def SharedPtr_move_def
      SharedPtr_Swap_def SharedPtr_UseCount_def SharedPtr_bool_def
      SharedPtr_DecreaseCBCounter_def SharedPtr_IncreaseCBCounter_def SharedPtr_GetCBCounter_def
      WeakPtr_destroy_def WeakPtr_Reset_def WeakPtr_copy_def WeakPtr_move_def WeakPtr_Swap_def
      WeakPtr_UseCount_def WeakPtr_Expired_def WeakPtr_Lock_def Expired_def
      WeakPtr_DecreaseCBCounter_def WeakPtr_IncreaseCBCounter_def WeakPtr_GetCBCounter_def
      coherent_def)

text \<open>Claim C10 on \<open>empty_state\<close>, a state with no control block at all.\<close>

theorem empty_pointer_operations_witness:
  "the_sp 0 empty_state = Inr \<lparr>cb = None, observed = nullptr\<rparr> \<and>
   the_wp 0 empty_state = Inr \<lparr>cb = None, observed = nullptr\<rparr> \<and>
   coherent \<lparr>cb = None, observed = nullptr\<rparr> \<and>
   SharedPtr_destroy 0 empty_state = Inr (end_sp 0 empty_state) \<and>
   SharedPtr_copy 0 empty_state = Inr (new_sp \<lparr>cb = None, observed = nullptr\<rparr> empty_state) \<and>
   SharedPtr_Swap 0 0 empty_state = Inr empty_state \<and>
   SharedPtr_UseCount 0 empty_state = Inr 0 \<and>
   SharedPtr_bool 0 empty_state = Inr False \<and>
   WeakPtr_destroy 0 empty_state = Inr (end_wp 0 empty_state) \<and>
   WeakPtr_Expired 0 empty_state = Inr True \<and>
   WeakPtr_Lock 0 empty_state = Inr (new_sp empty_handle empty_state)"
  using empty_pointer_operations [of 0 empty_state 0]
  by (simp add: empty_state_def the_sp_def the_wp_def coherent_def set_sp_def)

text \<open>
  Claim C10 as stated fails for \<^verbatim>\<open>operator bool\<close>: the aliasing constructor over an
  empty source gives a \<^verbatim>\<open>SharedPtr\<close> with no control block, use count 0 and the
  address it was given, and it converts to true.
\<close>

theorem empty_SharedPtr_converts_to_true:
  "and_then (run [SP_default, SP_alias 0 (Ext 7)] init) (the_sp 1) =
     Inr \<lparr>cb = None, observed = Ext 7\<rparr> \<and>
   and_then (run [SP_default, SP_alias 0 (Ext 7)] init) (SharedPtr_UseCount 1) = Inr 0 \<and>
   and_then (run [SP_default, SP_alias 0 (Ext 7)] init) (SharedPtr_bool 1) = Inr True"
  by (simp add: run_defs)


section \<open>EnableSharedFromThis\<close>

text \<open>
  \<^verbatim>\<open>EnableSharedFromThis<T>\<close> is a class of four member declarations,
  \<^verbatim>\<open>SharedFromThis()\<close> and \<^verbatim>\<open>WeakFromThis()\<close> with their \<^verbatim>\<open>const\<close> forms. None has a
  body, and the class has no data member: a payload of a deriving type has nowhere to keep
  a reference to its control block, and no operation to embed.
\<close>


text \<open>
  On the program \<^verbatim>\<open>SharedPtr<A> p(new A);\<close> from the empty state: one block, weak count
  0, and no \<^verbatim>\<open>WeakPtr\<close> object at all.
\<close>

lemma adoption_from_init:
  "run [SP_ptr (Ext 1)] init =
     Inr \<lparr>heap = (\<lambda>b. None)(0 \<mapsto> \<lparr>cls = ControlBlockPointer (Ext 1), shared_cnt = 1,
                                     weak_cnt = 0\<rparr>),
          next_cb = 1, released = [], deleted = [],
          sps = [Some \<lparr>cb = Some 0, observed = Ext 1\<rparr>], wps = []\<rparr>"
  by (simp add: run_defs)

end
